theory Spec2Isabelle
  imports Complex_Main "HOL-Library.Word" "HOL-Library.AList" "HOL-Library.Log_Nat"
begin

unbundle bit_operations_syntax

chapter \<open>The program\<close>

section \<open>Common types\<close>

type_synonym u8 = "8 word"
type_synonym u32 = "32 word"

text \<open>
  Modelled from the spec: \<open>lovrAssert\<close> and \<open>lovrThrow\<close>, whose definitions are not
  among the sources. The specification says of a configuration error that "the
  operation aborts immediately with a descriptive error": a failed \<open>lovrAssert\<close>
  leaves the function at once. An operation that can fail returns the outcome
  (\<open>Inl\<close> the error, \<open>Inr\<close> a normal return) together with the object as the function
  left it in memory, so that what was written before a failure stays visible. There is
  one constructor per message of the functions modelled here, and
  \<open>UndefinedBehaviour\<close> where the C has no defined outcome.
\<close>

datatype error =
  UnableToSend string
| ExpectedAtMost string int
| CouldNotCreateTexture
| CouldNotCreateTextureView
| UndefinedBehaviour

section \<open>Shader uniforms (OpenGL backend)\<close>

datatype UniformType = UNIFORM_FLOAT | UNIFORM_INT | UNIFORM_MATRIX | UNIFORM_SAMPLER

text \<open>
  The \<open>Uniform\<close> struct. \<open>value\<close> is the client-side copy of the uniform
  (\<open>uniform.value.data\<close>), kept as its bytes: the union's \<open>floats\<close>, \<open>ints\<close> and
  \<open>textures\<close> views read the same storage. Field names carry the prefix \<open>u_\<close>.
  The component count, the element count and the sizes are never negative and are
  natural numbers here; they are far from the range where C arithmetic on them wraps.
\<close>

record Uniform =
  u_name :: string
  u_type :: UniformType
  u_components :: nat
  u_count :: nat
  u_location :: int
  u_offset :: nat
  u_size :: nat
  u_value :: "u8 list"
  u_baseTextureSlot :: int
  u_dirty :: bool

record UniformBlock =
  b_index :: nat
  b_binding :: nat
  b_source :: "u32 option"

text \<open>
  Modelled from the spec: the tables \<open>map_uniform_t\<close> and \<open>map_block_t\<close> with
  \<open>map_get\<close> and \<open>map_set\<close>, whose library is not among the sources. The
  specification calls them "lookup tables" from a name to an entry: a table has one
  entry per name, \<open>map_get\<close> finds the entry of a name or nothing, and a write through
  the pointer that \<open>map_get\<close> returns replaces the entry. The association list keeps
  the order in which \<open>map_next\<close> walks the table. \<open>b_source\<close> holds the buffer of the
  bound \<open>ShaderBlock\<close> (\<open>block->source->buffer\<close>), \<open>None\<close> for a null source.
\<close>

record Shader =
  program :: u32
  uniforms :: "(string \<times> Uniform) list"
  blocks :: "(string \<times> UniformBlock) list"
  attributes :: "(string \<times> int) list"

definition map_get :: "(string \<times> 'a) list \<Rightarrow> string \<Rightarrow> 'a option" where
  "map_get m k = map_of m k"

definition map_set :: "(string \<times> 'a) list \<Rightarrow> string \<Rightarrow> 'a \<Rightarrow> (string \<times> 'a) list" where
  "map_set m k v = AList.update k v m"

text \<open>
  \<open>memcmp(a, b, n) == 0\<close> and \<open>memcpy(dst, src, n)\<close> on byte lists. Both read the
  first \<open>n\<close> bytes of their operands; the C is undefined when an operand is shorter.
\<close>

definition memcmp_eq :: "u8 list \<Rightarrow> u8 list \<Rightarrow> nat \<Rightarrow> bool" where
  "memcmp_eq a b n = (take n a = take n b)"

definition memcpy :: "u8 list \<Rightarrow> u8 list \<Rightarrow> nat \<Rightarrow> u8 list" where
  "memcpy dst src n = take n src @ drop n dst"

text \<open>
  \<open>count * size\<close> with \<open>int count\<close> and \<open>size_t size\<close>: the count is converted to
  the 64-bit unsigned type and the product wraps. The setters pass \<open>sizeof(float)\<close>,
  \<open>sizeof(int)\<close> and \<open>sizeof(Texture*)\<close>: 4, 4 and 8 bytes on a 64-bit target.
\<close>

definition size_t_mul :: "int \<Rightarrow> nat \<Rightarrow> nat" where
  "size_t_mul count sz = (nat (count mod 2 ^ 64) * sz) mod 2 ^ 64"

definition lovrShaderSetUniform ::
  "Shader \<Rightarrow> string \<Rightarrow> UniformType \<Rightarrow> u8 list \<Rightarrow> int \<Rightarrow> nat \<Rightarrow> string \<Rightarrow> (error + unit) \<times> Shader" where
  "lovrShaderSetUniform shader name ty data count sz debug =
     (case map_get (uniforms shader) name of
        None \<Rightarrow> (Inr (), shader)
      | Some uniform \<Rightarrow>
          if u_type uniform \<noteq> ty then (Inl (UnableToSend debug), shader)
          else if \<not> size_t_mul count sz \<le> u_size uniform
            then (Inl (ExpectedAtMost debug count), shader)
          else if \<not> u_dirty uniform \<and> memcmp_eq (u_value uniform) data (size_t_mul count sz)
            then (Inr (), shader)
          else (Inr (), shader\<lparr>uniforms := map_set (uniforms shader) name
                 (uniform\<lparr>u_value := memcpy (u_value uniform) data (size_t_mul count sz),
                          u_dirty := True\<rparr>)\<rparr>))"

definition lovrShaderSetFloat :: "Shader \<Rightarrow> string \<Rightarrow> u8 list \<Rightarrow> int \<Rightarrow> (error + unit) \<times> Shader" where
  "lovrShaderSetFloat shader name data count =
     lovrShaderSetUniform shader name UNIFORM_FLOAT data count 4 ''float''"

definition lovrShaderSetInt :: "Shader \<Rightarrow> string \<Rightarrow> u8 list \<Rightarrow> int \<Rightarrow> (error + unit) \<times> Shader" where
  "lovrShaderSetInt shader name data count =
     lovrShaderSetUniform shader name UNIFORM_INT data count 4 ''int''"

definition lovrShaderSetMatrix :: "Shader \<Rightarrow> string \<Rightarrow> u8 list \<Rightarrow> int \<Rightarrow> (error + unit) \<times> Shader" where
  "lovrShaderSetMatrix shader name data count =
     lovrShaderSetUniform shader name UNIFORM_MATRIX data count 4 ''float''"

definition lovrShaderSetTexture :: "Shader \<Rightarrow> string \<Rightarrow> u8 list \<Rightarrow> int \<Rightarrow> (error + unit) \<times> Shader" where
  "lovrShaderSetTexture shader name data count =
     lovrShaderSetUniform shader name UNIFORM_SAMPLER data count 8 ''texture''"

text \<open>
  What \<open>lovrShaderBind\<close> calls: the \<open>glUniform*\<close> uploads (location, count, data),
  and the two cached binders \<open>lovrGpuBindTexture\<close> (the pointer bytes of
  \<open>value.textures[i]\<close>, slot) and \<open>lovrGpuBindUniformBuffer\<close> (buffer, slot).
\<close>

datatype bind_call =
  GlUniformfv nat int nat "u8 list"
| GlUniformiv nat int nat "u8 list"
| GlUniformMatrixfv nat int nat "u8 list"
| GpuBindTexture "u8 list" int
| GpuBindUniformBuffer u32 nat


definition sampler_binds :: "Uniform \<Rightarrow> bind_call list" where
  "sampler_binds uniform =
     map (\<lambda>i. GpuBindTexture (take 8 (drop (8 * i) (u_value uniform)))
                 (u_baseTextureSlot uniform + int i))
       [0 ..< u_count uniform]"

text \<open>The body of the loop over \<open>shader->uniforms\<close> in \<open>lovrShaderBind\<close>, for one entry.\<close>

definition bind_uniform :: "Uniform \<Rightarrow> Uniform \<times> bind_call list" where
  "bind_uniform uniform =
     (if u_type uniform \<noteq> UNIFORM_SAMPLER \<and> \<not> u_dirty uniform then (uniform, [])
      else (uniform\<lparr>u_dirty := False\<rparr>,
        (case u_type uniform of
           UNIFORM_FLOAT \<Rightarrow>
             (if u_components uniform \<in> {1, 2, 3, 4}
              then [GlUniformfv (u_components uniform) (u_location uniform) (u_count uniform) (u_value uniform)]
              else [])
         | UNIFORM_INT \<Rightarrow>
             (if u_components uniform \<in> {1, 2, 3, 4}
              then [GlUniformiv (u_components uniform) (u_location uniform) (u_count uniform) (u_value uniform)]
              else [])
         | UNIFORM_MATRIX \<Rightarrow>
             (if u_components uniform \<in> {2, 3, 4}
              then [GlUniformMatrixfv (u_components uniform) (u_location uniform) (u_count uniform) (u_value uniform)]
              else [])
         | UNIFORM_SAMPLER \<Rightarrow> sampler_binds uniform)))"

fun bind_uniforms :: "(string \<times> Uniform) list \<Rightarrow> (string \<times> Uniform) list \<times> bind_call list" where
  "bind_uniforms [] = ([], [])"
| "bind_uniforms ((k, u) # rest) =
     (let (u', cs) = bind_uniform u; (rest', cs') = bind_uniforms rest
      in ((k, u') # rest', cs @ cs'))"

definition bind_blocks :: "(string \<times> UniformBlock) list \<Rightarrow> bind_call list" where
  "bind_blocks bs =
     map (\<lambda>(k, block). GpuBindUniformBuffer (case b_source block of None \<Rightarrow> 0 | Some b \<Rightarrow> b)
                          (b_binding block)) bs"

definition lovrShaderBind :: "Shader \<Rightarrow> Shader \<times> bind_call list" where
  "lovrShaderBind shader =
     (let (us, cs) = bind_uniforms (uniforms shader)
      in (shader\<lparr>uniforms := us\<rparr>, cs @ bind_blocks (blocks shader)))"

text \<open>A shader with one float uniform \<open>x\<close> of count 1, and the bytes of \<open>1.0f\<close>.\<close>

definition example_uniform :: Uniform where
  "example_uniform = \<lparr>u_name = ''x'', u_type = UNIFORM_FLOAT, u_components = 1, u_count = 1,
     u_location = 0, u_offset = 0, u_size = 4, u_value = [0, 0, 0, 0],
     u_baseTextureSlot = -1, u_dirty = False\<rparr>"

definition example_shader :: Shader where
  "example_shader = \<lparr>program = 1, uniforms = [(''x'', example_uniform)], blocks = [],
     attributes = []\<rparr>"

definition float_one :: "u8 list" where
  "float_one = [0x00, 0x00, 0x80, 0x3F]"


section \<open>The state cache (OpenGL backend)\<close>

text \<open>
  A C \<open>float\<close> is kept as its 32 bits. \<open>memcmp\<close> compares the bits; the operator
  \<open>!=\<close> is the IEEE comparison: a NaN differs from everything, itself included, and
  the two zeros are equal.
\<close>

type_synonym float = u32



datatype BlendMode =
  BLEND_ALPHA | BLEND_ADD | BLEND_SUBTRACT | BLEND_MULTIPLY
| BLEND_LIGHTEN | BLEND_DARKEN | BLEND_SCREEN | BLEND_REPLACE

datatype BlendAlphaMode = BLEND_ALPHA_MULTIPLY | BLEND_PREMULTIPLIED

datatype CompareMode =
  COMPARE_NONE | COMPARE_EQUAL | COMPARE_NEQUAL | COMPARE_LESS
| COMPARE_LEQUAL | COMPARE_GREATER | COMPARE_GEQUAL

datatype Winding = WINDING_CLOCKWISE | WINDING_COUNTERCLOCKWISE

datatype GLenum =
  GL_ONE | GL_ZERO | GL_DST_COLOR | GL_SRC_ALPHA | GL_ONE_MINUS_SRC_ALPHA
| GL_ONE_MINUS_SRC_COLOR | GL_FUNC_ADD | GL_FUNC_REVERSE_SUBTRACT | GL_MAX | GL_MIN
| GL_CULL_FACE | GL_DEPTH_TEST | GL_STENCIL_TEST
| GL_ALWAYS | GL_EQUAL | GL_NOTEQUAL | GL_LESS | GL_LEQUAL | GL_GREATER | GL_GEQUAL
| GL_KEEP | GL_CW | GL_CCW | GL_FRONT_AND_BACK | GL_LINE | GL_FILL
| GL_FRAMEBUFFER | GL_ELEMENT_ARRAY_BUFFER | GL_UNIFORM_BUFFER | GL_ARRAY_BUFFER
| GL_STATIC_DRAW | GL_DYNAMIC_DRAW | GL_STREAM_DRAW

text \<open>
  The calls into OpenGL that the modelled functions make, with their arguments.
  \<open>GlBufferData\<close> carries the byte size, the data (\<open>None\<close> for a null pointer) and
  the usage; \<open>GlGenBuffers\<close> the name the driver handed out.
\<close>

datatype gl_call =
  GlBindFramebuffer GLenum u32
| GlBindBuffer GLenum u32
| GlBindBufferBase GLenum nat u32
| GlBindVertexArray u32
| GlViewport float float float float
| GlUseProgram u32
| GlBlendEquation GLenum
| GlBlendFuncSeparate GLenum GLenum GLenum GLenum
| GlEnable GLenum
| GlDisable GLenum
| GlDepthFunc GLenum
| GlDepthMask bool
| GlLineWidth float
| GlStencilFunc GLenum int nat
| GlStencilOp GLenum GLenum GLenum
| GlFrontFace GLenum
| GlPolygonMode GLenum GLenum
| GlGenBuffers u32
| GlBufferData GLenum nat "u8 list option" GLenum


record gl_state =
  st_blendMode :: "BlendMode option"
  st_blendAlphaMode :: "BlendAlphaMode option"
  st_culling :: bool
  st_depthEnabled :: bool
  st_depthTest :: CompareMode
  st_depthWrite :: bool
  st_lineWidth :: float
  st_stencilEnabled :: bool
  st_stencilMode :: "CompareMode option"
  st_stencilValue :: int
  st_stencilWriting :: bool
  st_winding :: Winding
  st_wireframe :: bool
  st_framebuffer :: u32
  st_indexBuffer :: u32
  st_program :: u32
  st_uniformBuffers :: "nat \<Rightarrow> u32"
  st_vertexArray :: u32
  st_vertexBuffer :: u32
  st_viewport :: "float \<times> float \<times> float \<times> float"
  st_shaderSwitches :: nat



definition lovrGpuBindUniformBuffer :: "u32 \<Rightarrow> nat \<Rightarrow> gl_state \<Rightarrow> gl_state \<times> gl_call list" where
  "lovrGpuBindUniformBuffer uniformBuffer slot st =
     (if st_uniformBuffers st slot \<noteq> uniformBuffer
      then (st\<lparr>st_uniformBuffers := (st_uniformBuffers st)(slot := uniformBuffer)\<rparr>,
            [GlBindBufferBase GL_UNIFORM_BUFFER slot uniformBuffer])
      else (st, []))"





text \<open>
  The cache fields as \<open>lovrGpuInit\<close> sets them; the bindings, which it does not
  touch, are the zeros of the static struct. \<open>1.0f\<close> is \<open>0x3F800000\<close>.
\<close>

definition lovrGpuInit :: gl_state where
  "lovrGpuInit = \<lparr>
     st_blendMode = None, st_blendAlphaMode = None, st_culling = False,
     st_depthEnabled = False, st_depthTest = COMPARE_LESS, st_depthWrite = True,
     st_lineWidth = 0x3F800000, st_stencilEnabled = False,
     st_stencilMode = Some COMPARE_NONE, st_stencilValue = 0, st_stencilWriting = False,
     st_winding = WINDING_COUNTERCLOCKWISE, st_wireframe = False,
     st_framebuffer = 0, st_indexBuffer = 0, st_program = 0,
     st_uniformBuffers = (\<lambda>_. 0), st_vertexArray = 0, st_vertexBuffer = 0,
     st_viewport = (0, 0, 0, 0), st_shaderSwitches = 0\<rparr>"

subsection \<open>The pipeline toggles of a draw\<close>














text \<open>Running cached setters one after the other, collecting their calls.\<close>

definition then_do ::
  "(gl_state \<Rightarrow> gl_state \<times> gl_call list) \<Rightarrow> (gl_state \<Rightarrow> gl_state \<times> gl_call list)
     \<Rightarrow> gl_state \<Rightarrow> gl_state \<times> gl_call list" where
  "then_do f g st = (let (st1, cs1) = f st; (st2, cs2) = g st1 in (st2, cs1 @ cs2))"


subsection \<open>Sequences of update requests\<close>

datatype cache_update =
  UseProgram u32
| BindFramebuffer u32
| BindIndexBuffer u32
| BindUniformBuffer u32 nat
| BindVertexArray u32
| BindVertexBuffer u32
| SetViewport "float \<times> float \<times> float \<times> float"








fun requested_uniformBuffer :: "nat \<Rightarrow> cache_update \<Rightarrow> u32 option" where
  "requested_uniformBuffer j (BindUniformBuffer b slot) = (if slot = j then Some b else None)"
| "requested_uniformBuffer j _ = None"








section \<open>Shader blocks (OpenGL backend)\<close>

definition MAX_SHADER_BLOCK_UNIFORMS :: nat where
  "MAX_SHADER_BLOCK_UNIFORMS = 32"

record ShaderBlock =
  sb_uniforms :: "Uniform list"
  sb_uniformCount :: nat
  sb_buffer :: u32

text \<open>
  The loop of \<open>lovrShaderBlockCreate\<close> over the first \<open>uniformCount\<close> entries of
  the caller's array: it writes each entry's \<open>offset\<close> and advances the running offset.
  The result is the entries as written and the final offset.
\<close>

fun block_offsets :: "nat \<Rightarrow> Uniform list \<Rightarrow> Uniform list \<times> nat" where
  "block_offsets offset [] = ([], offset)"
| "block_offsets offset (u # us) =
     (let offset' =
            (if u_type u \<noteq> UNIFORM_MATRIX
             then (if u_count u = 1 then offset + 4 else offset + u_count u * 16)
             else offset + u_components u * u_components u * 4);
          (us', total) = block_offsets offset' us
      in (u\<lparr>u_offset := offset\<rparr> # us', total))"

text \<open>
  \<open>lovrShaderBlockCreate\<close>. The block's own array is copied from the caller's before
  the loop runs, and the loop writes the offsets into the caller's array, which is
  returned second. \<open>buffer\<close> is the name \<open>glGenBuffers\<close> hands out. The array
  parameter is read at \<open>MAX_SHADER_BLOCK_UNIFORMS\<close> entries by the copy and at
  \<open>uniformCount\<close> entries by the loop; a shorter array is undefined in C and is read
  here as far as it goes. Allocation is taken to succeed.
\<close>

definition lovrShaderBlockCreate ::
  "Uniform list \<Rightarrow> nat \<Rightarrow> u32 \<Rightarrow> gl_state
     \<Rightarrow> ShaderBlock \<times> Uniform list \<times> gl_state \<times> gl_call list" where
  "lovrShaderBlockCreate uniforms_arg uniformCount buffer st =
     (let (packed, totalSize) = block_offsets 0 (take uniformCount uniforms_arg);
          (st', cs) = lovrGpuBindUniformBuffer buffer 0 st
      in (\<lparr>sb_uniforms = take MAX_SHADER_BLOCK_UNIFORMS uniforms_arg,
           sb_uniformCount = uniformCount, sb_buffer = buffer\<rparr>,
          packed @ drop uniformCount uniforms_arg,
          st',
          [GlGenBuffers buffer] @ cs
            @ [GlBufferData GL_UNIFORM_BUFFER totalSize None GL_STATIC_DRAW]))"

text \<open>
  The packing rule in the words of the specification, with the one change that a
  scalar takes 4 bytes: a matrix takes components squared times 4 bytes per element, a
  non-matrix scalar takes 4 bytes, a non-matrix vector is padded to a 16-byte slot, and
  an array takes 16 bytes per element.
\<close>

definition spec_packed_size :: "Uniform \<Rightarrow> nat" where
  "spec_packed_size u =
     (if u_type u = UNIFORM_MATRIX then u_components u * u_components u * 4 * u_count u
      else if u_count u = 1 then (if u_components u = 1 then 4 else 16)
      else 16 * u_count u)"

text \<open>
  The uniforms on which the loop is compared with that rule: single matrices, scalars,
  and arrays. Left out are a vector that is not an array and an array of matrices.
\<close>

definition packing_in_scope :: "Uniform \<Rightarrow> bool" where
  "packing_in_scope u =
     (if u_type u = UNIFORM_MATRIX then u_count u = 1
      else if u_count u = 1 then u_components u = 1
      else True)"

definition example_uniform_of :: "UniformType \<Rightarrow> nat \<Rightarrow> nat \<Rightarrow> Uniform" where
  "example_uniform_of ty components count =
     \<lparr>u_name = ''u'', u_type = ty, u_components = components, u_count = count,
      u_location = 0, u_offset = 0, u_size = 0, u_value = [],
      u_baseTextureSlot = -1, u_dirty = False\<rparr>"

definition example_block_uniforms :: "Uniform list" where
  "example_block_uniforms =
     [example_uniform_of UNIFORM_FLOAT 1 1, example_uniform_of UNIFORM_MATRIX 4 1,
      example_uniform_of UNIFORM_FLOAT 4 3, example_uniform_of UNIFORM_INT 1 1]"

section \<open>Mesh growth (OpenGL backend)\<close>







section \<open>Mipmap counts\<close>

datatype TextureType = TEXTURE_2D | TEXTURE_ARRAY | TEXTURE_CUBE | TEXTURE_VOLUME

text \<open>
  \<open>log2(x) + 1\<close> converted to an integer, for an integer \<open>x\<close>. The C computes the
  logarithm in floating point and truncates; it is taken as exact here, so that the
  value is \<open>\<lfloor>log\<^sub>2 x\<rfloor> + 1\<close>, which is \<open>floorlog 2 x\<close>. For \<open>x \<le> 0\<close> the logarithm is
  not a finite number and the conversion is undefined: \<open>None\<close>.
\<close>

definition log2_plus_1 :: "int \<Rightarrow> nat option" where
  "log2_plus_1 x = (if x \<le> 0 then None else Some (floorlog 2 (nat x)))"

text \<open>
  The mipmap count that \<open>lovrTextureAllocate\<close> (OpenGL backend) stores in the texture,
  from the texture's type and mipmap flag, the image's width and height and the
  texture's depth.
\<close>

definition lovrTextureAllocate_mipmapCount ::
  "TextureType \<Rightarrow> bool \<Rightarrow> int \<Rightarrow> int \<Rightarrow> int \<Rightarrow> nat option" where
  "lovrTextureAllocate_mipmapCount ty mipmaps w h d =
     (if mipmaps
      then (let dimension = (if ty = TEXTURE_VOLUME then max (max w h) d else max w h)
            in log2_plus_1 dimension)
      else Some 1)"

section \<open>The graphics module on the GPU core: buffers and synchronization\<close>

type_synonym ptr = nat

text \<open>
  The enumerators of the GPU core's access enum that \<open>lovrBufferMap\<close> names, and
  \<open>GPU_ACCESS_COUNT\<close>. The header that declares them is not among the sources, so
  their values are parameters.
\<close>

record gpu_access =
  GPU_WRITE_COLOR_TARGET :: nat
  GPU_WRITE_DEPTH_TARGET :: nat
  GPU_WRITE_COMPUTE_SHADER_STORAGE :: nat
  GPU_WRITE_UPLOAD :: nat
  GPU_ACCESS_COUNT :: nat

text \<open>The calls into the GPU core, with their arguments.\<close>

datatype gpu_call =
  Gpu_sync u32 u32
| Gpu_buffer_map ptr u32 u32

text \<open>
  \<open>access\<close> is the memory that holds the \<open>access\<close> word of every \<open>Buffer\<close>,
  addressed by the buffer; \<open>sync\<close> is \<open>state.sync\<close>, each list holding pointers to
  such words; \<open>gpu_log\<close> collects the calls into the GPU core in the order made.

  Modelled from the spec: the array macros \<open>arr_push\<close> and \<open>arr_clear\<close>, which are
  not among the sources. The specification speaks of a "tracking list" per category
  to which a resource is added: \<open>arr_push\<close> appends to the list and \<open>arr_clear\<close>
  empties it.
\<close>

record gfx_state =
  access :: "ptr \<Rightarrow> u32"
  sync :: "nat \<Rightarrow> ptr list"
  gpu_log :: "gpu_call list"

text \<open>
  The macro \<open>WRITE_MASK\<close> is a disjunction of four bits without parentheses around
  it. \<open>WRITE_MASK\<close> is its value; \<open>and_WRITE_MASK x\<close> is what \<open>x & WRITE_MASK\<close>
  expands to, where \<open>&\<close> takes the first bit only and the other three are or-ed in.
\<close>

definition WRITE_MASK :: "gpu_access \<Rightarrow> u32" where
  "WRITE_MASK e =
     push_bit (GPU_WRITE_COLOR_TARGET e) 1 OR push_bit (GPU_WRITE_DEPTH_TARGET e) 1
     OR push_bit (GPU_WRITE_COMPUTE_SHADER_STORAGE e) 1 OR push_bit (GPU_WRITE_UPLOAD e) 1"

definition and_WRITE_MASK :: "gpu_access \<Rightarrow> u32 \<Rightarrow> u32" where
  "and_WRITE_MASK e x =
     (x AND push_bit (GPU_WRITE_COLOR_TARGET e) 1) OR push_bit (GPU_WRITE_DEPTH_TARGET e) 1
     OR push_bit (GPU_WRITE_COMPUTE_SHADER_STORAGE e) 1 OR push_bit (GPU_WRITE_UPLOAD e) 1"

text \<open>The inner loop: bit \<open>i\<close> is cleared in every word the list points to.\<close>

fun clear_access :: "nat \<Rightarrow> ptr list \<Rightarrow> (ptr \<Rightarrow> u32) \<Rightarrow> (ptr \<Rightarrow> u32)" where
  "clear_access i [] mem = mem"
| "clear_access i (p # ps) mem = clear_access i ps (mem(p := mem p AND NOT (push_bit i 1)))"

text \<open>The body of the outer loop for category \<open>i\<close>, and the outer loop.\<close>

definition clear_category :: "u32 \<Rightarrow> nat \<Rightarrow> gfx_state \<Rightarrow> gfx_state" where
  "clear_category before i s =
     (if before AND push_bit i 1 \<noteq> 0
      then s\<lparr>access := clear_access i (sync s i) (access s), sync := (sync s)(i := [])\<rparr>
      else s)"

definition clear_pending :: "gpu_access \<Rightarrow> u32 \<Rightarrow> gfx_state \<Rightarrow> gfx_state" where
  "clear_pending e before s = fold (clear_category before) [0 ..< GPU_ACCESS_COUNT e] s"

definition gpu_sync :: "u32 \<Rightarrow> u32 \<Rightarrow> gfx_state \<Rightarrow> gfx_state" where
  "gpu_sync before after s = s\<lparr>gpu_log := gpu_log s @ [Gpu_sync before after]\<rparr>"

definition lovrBufferMap :: "gpu_access \<Rightarrow> ptr \<Rightarrow> u32 \<Rightarrow> u32 \<Rightarrow> gfx_state \<Rightarrow> gfx_state" where
  "lovrBufferMap e buffer offset sz s =
     (let before = access s buffer;
          after = push_bit (GPU_WRITE_UPLOAD e) 1;
          s1 = (if before \<noteq> 0 \<and> (and_WRITE_MASK e before \<noteq> 0 \<or> and_WRITE_MASK e after \<noteq> 0)
                then gpu_sync before after (clear_pending e before s)
                else s);
          s2 = s1\<lparr>access := (access s1)(buffer := access s1 buffer OR after),
                  sync := (sync s1)(GPU_WRITE_UPLOAD e := sync s1 (GPU_WRITE_UPLOAD e) @ [buffer])\<rparr>
      in s2\<lparr>gpu_log := gpu_log s2 @ [Gpu_buffer_map buffer offset sz]\<rparr>)"

definition example_access :: gpu_access where
  "example_access = \<lparr>GPU_WRITE_COLOR_TARGET = 4, GPU_WRITE_DEPTH_TARGET = 5,
     GPU_WRITE_COMPUTE_SHADER_STORAGE = 6, GPU_WRITE_UPLOAD = 7, GPU_ACCESS_COUNT = 8\<rparr>"

definition gfx_init :: gfx_state where
  "gfx_init = \<lparr>access = (\<lambda>_. 0), sync = (\<lambda>_. []), gpu_log = []\<rparr>"

text \<open>
  Buffers 10 and 20 have a pending upload write and are tracked for it; buffer 30 has a
  pending access of category 2 and is tracked for that.
\<close>

definition example_gfx :: gfx_state where
  "example_gfx = \<lparr>access = (\<lambda>_. 0)(10 := 0x80, 20 := 0x80, 30 := 4),
     sync = (\<lambda>_. [])(7 := [10, 20], 2 := [30]), gpu_log = []\<rparr>"

section \<open>The graphics module on the GPU core: textures\<close>

record TextureView =
  v_source :: "ptr option"
  v_type :: TextureType
  v_layerIndex :: nat
  v_layerCount :: nat
  v_mipmapIndex :: nat
  v_mipmapCount :: nat

text \<open>
  The fields of \<open>TextureInfo\<close> that the modelled code reads: the view, the type, the
  three sizes and the mipmap count. \<open>v_source\<close> is \<open>None\<close> for a null pointer.
\<close>

record TextureInfo =
  ti_view :: TextureView
  ti_type :: TextureType
  ti_size :: "u32 \<times> u32 \<times> u32"
  ti_mipmaps :: u32

text \<open>
  The mipmap count that \<open>lovrTextureCreate\<close> passes to the GPU core and writes back
  into the caller's \<open>info\<close>: computed when the caller asked for \<open>~0u\<close>.
\<close>

definition lovrTextureCreate_mipmaps :: "TextureInfo \<Rightarrow> u32 option" where
  "lovrTextureCreate_mipmaps info =
     (if ti_mipmaps info = - 1
      then (case ti_size info of
              (w, h, d) \<Rightarrow> map_option word_of_nat (log2_plus_1 (uint (max (max w h) d))))
      else Some (ti_mipmaps info))"

definition no_view :: TextureView where
  "no_view = \<lparr>v_source = None, v_type = TEXTURE_2D, v_layerIndex = 0, v_layerCount = 0,
     v_mipmapIndex = 0, v_mipmapCount = 0\<rparr>"

definition example_info :: "TextureType \<Rightarrow> u32 \<Rightarrow> u32 \<Rightarrow> u32 \<Rightarrow> TextureInfo" where
  "example_info ty w h d = \<lparr>ti_view = no_view, ti_type = ty, ti_size = (w, h, d), ti_mipmaps = - 1\<rparr>"

section \<open>The graphics module on the GPU core: texture objects and views\<close>

text \<open>
  Modelled from the spec: the reference count of an object and the operations
  \<open>lovrRetain\<close> and \<open>lovrRelease\<close>, which \<open>lovrTextureCreateView\<close> and
  \<open>lovrTextureDestroy\<close> call and which are not among the sources. The specification
  says that resource lifetime "uses reference counting with retain/release semantics":
  a shared owner "increments a count on attach and decrements on detach or owner
  destruction; the underlying hardware object is destroyed only when the count reaches
  zero". An object is created holding the one reference of its creator.

  A \<open>Texture\<close> is its count \<open>t_ref\<close>, the state of its \<open>gpu_texture\<close> (\<open>t_gpu\<close>:
  initialised and not destroyed) and its \<open>info\<close>. The heap is the list of the textures
  ever allocated, a pointer being the position; a freed texture stays in the list with
  count 0, and using a pointer to it is undefined.
\<close>

record Texture =
  t_ref :: nat
  t_gpu :: bool
  t_info :: TextureInfo

type_synonym heap = "Texture list"

definition source_of :: "Texture \<Rightarrow> ptr option" where
  "source_of t = v_source (ti_view (t_info t))"

definition lovrRetain :: "heap \<Rightarrow> ptr \<Rightarrow> heap" where
  "lovrRetain h p = h[p := (h ! p)\<lparr>t_ref := t_ref (h ! p) + 1\<rparr>]"

text \<open>
  \<open>lovrTextureCreate\<close>: the texture's \<open>info\<close> is copied from the caller's before the
  mipmap count is computed; the computed count goes to the GPU core and into the
  caller's \<open>info\<close>, returned third. \<open>gpu_ok\<close> is the result of \<open>gpu_texture_init\<close>.
  A texture whose initialisation fails is not handed out and is left out of the heap.
\<close>

definition lovrTextureCreate ::
  "TextureInfo \<Rightarrow> bool \<Rightarrow> heap \<Rightarrow> (error + ptr) \<times> heap \<times> TextureInfo" where
  "lovrTextureCreate info gpu_ok h =
     (case lovrTextureCreate_mipmaps info of
        None \<Rightarrow> (Inl UndefinedBehaviour, h, info)
      | Some m \<Rightarrow>
          if gpu_ok
          then (Inr (length h), h @ [\<lparr>t_ref = 1, t_gpu = True, t_info = info\<rparr>],
                info\<lparr>ti_mipmaps := m\<rparr>)
          else (Inl CouldNotCreateTexture, h, info\<lparr>ti_mipmaps := m\<rparr>))"

text \<open>
  \<open>lovrTextureCreateView\<close>: the view's \<open>info\<close> is the source's with the view
  descriptor put in; after \<open>gpu_texture_init_view\<close> succeeded the source is retained.
  Reading through a null source, or one that was freed, is undefined.
\<close>

definition lovrTextureCreateView :: "TextureView \<Rightarrow> bool \<Rightarrow> heap \<Rightarrow> (error + ptr) \<times> heap" where
  "lovrTextureCreateView view gpu_ok h =
     (case v_source view of
        None \<Rightarrow> (Inl UndefinedBehaviour, h)
      | Some s \<Rightarrow>
          if \<not> (s < length h \<and> 0 < t_ref (h ! s)) then (Inl UndefinedBehaviour, h)
          else if gpu_ok
          then (Inr (length h),
                lovrRetain (h @ [\<lparr>t_ref = 1, t_gpu = True,
                                   t_info = (t_info (h ! s))\<lparr>ti_view := view\<rparr>\<rparr>]) s)
          else (Inl CouldNotCreateTextureView, h))"

text \<open>
  \<open>lovrRelease(p, lovrTextureDestroy)\<close> gives up one reference and, when it was the
  last, runs the destructor and frees the object; \<open>lovrTextureDestroy\<close> destroys the
  texture's own GPU object and releases the source if there is one. \<open>None\<close> is the
  undefined use of a pointer that is not a live object.
\<close>

function lovrRelease :: "heap \<Rightarrow> ptr \<Rightarrow> heap option"
  and lovrTextureDestroy :: "heap \<Rightarrow> ptr \<Rightarrow> heap option" where
  "lovrRelease h p =
     (if p < length h \<and> 0 < t_ref (h ! p)
      then (if t_ref (h ! p) = 1
            then lovrTextureDestroy (h[p := (h ! p)\<lparr>t_ref := 0\<rparr>]) p
            else Some (h[p := (h ! p)\<lparr>t_ref := t_ref (h ! p) - 1\<rparr>]))
      else None)"
| "lovrTextureDestroy h p =
     (if p < length h
      then (case source_of (h ! p) of
              None \<Rightarrow> Some (h[p := (h ! p)\<lparr>t_gpu := False\<rparr>])
            | Some s \<Rightarrow> lovrRelease (h[p := (h ! p)\<lparr>t_gpu := False\<rparr>]) s)
      else None)"
  by pat_completeness auto
termination
proof (relation "measure (\<lambda>x. case x of
           Inl (h, p) \<Rightarrow> 2 * sum_list (map t_ref h)
         | Inr (h, p) \<Rightarrow> 2 * sum_list (map t_ref h) + 1)", goal_cases)
  case 1
  show ?case by simp
next
  case (2 h p)
  then have p: "p < length (map t_ref h)" and one: "map t_ref h ! p = 1" by simp_all
  have "sum_list ((map t_ref h)[p := 0]) = sum_list (map t_ref h) + 0 - map t_ref h ! p"
    using p by (rule sum_list_update)
  moreover have "map t_ref h ! p \<le> sum_list (map t_ref h)"
    using p by (rule elem_le_sum_list)
  ultimately show ?case using one by (simp add: map_update)
next
  case (3 h p s)
  then have "(map t_ref h)[p := t_ref (h ! p)] = map t_ref h"
    by (simp add: list_update_same_conv)
  then show ?case by (simp add: map_update)
qed

declare lovrRelease.simps [simp del] lovrTextureDestroy.simps [simp del]

text \<open>
  The number of live views onto \<open>s\<close>: textures whose GPU object exists and whose
  source is \<open>s\<close>.
\<close>

definition views_onto :: "ptr \<Rightarrow> Texture \<Rightarrow> nat" where
  "views_onto s t = (if t_gpu t \<and> source_of t = Some s then 1 else 0)"

definition views :: "heap \<Rightarrow> ptr \<Rightarrow> nat" where
  "views h s = sum_list (map (views_onto s) h)"

text \<open>
  The states that clients reach who respect ownership: \<open>held p\<close> counts the references
  to \<open>p\<close> that clients hold. A client gets one by creating a texture or a view and by
  retaining what it holds, and gives up only what it holds. A texture that is not
  created as a view carries no source.
\<close>

inductive reachable :: "heap \<Rightarrow> (ptr \<Rightarrow> nat) \<Rightarrow> bool" where
  start: "reachable [] (\<lambda>_. 0)"
| create: "reachable h held \<Longrightarrow> v_source (ti_view info) = None \<Longrightarrow>
     lovrTextureCreate info True h = (Inr p, h', info') \<Longrightarrow> reachable h' (held(p := 1))"
| create_view: "reachable h held \<Longrightarrow>
     lovrTextureCreateView view True h = (Inr p, h') \<Longrightarrow> reachable h' (held(p := 1))"
| retain: "reachable h held \<Longrightarrow> 0 < held p \<Longrightarrow>
     reachable (lovrRetain h p) (held(p := held p + 1))"
| release: "reachable h held \<Longrightarrow> 0 < held p \<Longrightarrow> lovrRelease h p = Some h' \<Longrightarrow>
     reachable h' (held(p := held p - 1))"

text \<open>
  What holds in every such state, stated with one reference of \<open>x\<close> still to be
  released (\<open>x = None\<close>: none): a count is the references held by clients plus the live
  views onto the texture, the GPU object exists exactly while the count is positive, a
  source is older than its view, and nothing is held beyond the heap.
\<close>

definition accounted :: "heap \<Rightarrow> (ptr \<Rightarrow> nat) \<Rightarrow> ptr option \<Rightarrow> bool" where
  "accounted h held x =
     ((\<forall>p < length h.
         t_ref (h ! p) = held p + views h p + (if x = Some p then 1 else 0)
         \<and> t_gpu (h ! p) = (0 < t_ref (h ! p))
         \<and> (\<forall>s. source_of (h ! p) = Some s \<longrightarrow> s < p))
      \<and> (\<forall>p \<ge> length h. held p = 0))"

definition view_of :: "ptr \<Rightarrow> TextureView" where
  "view_of s = \<lparr>v_source = Some s, v_type = TEXTURE_2D, v_layerIndex = 0, v_layerCount = 1,
     v_mipmapIndex = 0, v_mipmapCount = 1\<rparr>"

definition example_texture :: Texture where
  "example_texture = \<lparr>t_ref = 1, t_gpu = True, t_info = example_info TEXTURE_2D 4 4 1\<rparr>"

definition example_view :: Texture where
  "example_view = \<lparr>t_ref = 1, t_gpu = True,
     t_info = (example_info TEXTURE_2D 4 4 1)\<lparr>ti_view := view_of 0\<rparr>\<rparr>"

chapter \<open>Verification\<close>

section \<open>Setting and flushing shader uniforms\<close>

subsection \<open>Facts about the table, the byte copies and the flush loop\<close>

lemma map_get_map_set: "map_get (map_set m k v) k' = (if k' = k then Some v else map_get m k')"
  by (simp add: map_get_def map_set_def update_conv')



lemma take_memcpy: "n \<le> length src \<Longrightarrow> take n (memcpy dst src n) = take n src"
  by (simp add: memcpy_def)


lemma size_t_mul_1_4: "size_t_mul 1 4 = 4"
  by (simp add: size_t_mul_def)

lemma size_t_mul_2_4: "size_t_mul 2 4 = 8"
  by (simp add: size_t_mul_def)

lemma bind_uniforms_calls:
  "snd (bind_uniforms us) = concat (map (\<lambda>(k, u). snd (bind_uniform u)) us)"
  by (induction us) (auto split: prod.splits)


lemma lovrShaderBind_calls:
  "snd (lovrShaderBind shader)
     = concat (map (\<lambda>(k, u). snd (bind_uniform u)) (uniforms shader)) @ bind_blocks (blocks shader)"
  using bind_uniforms_calls [of "uniforms shader"]
  by (auto simp add: lovrShaderBind_def split: prod.splits)




lemma example_get: "map_get (uniforms example_shader) ''x'' = Some example_uniform"
  by (simp add: map_get_def example_shader_def)


text \<open>
  A set call that returns normally leaves, in the first \<open>count * size\<close> bytes of the
  cached value, the bytes it was given.
\<close>

lemma set_ok_value:
  assumes ok: "lovrShaderSetUniform shader name ty data count sz debug = (Inr (), s1)"
    and found: "map_get (uniforms shader) name = Some u"
    and len: "size_t_mul count sz \<le> length data"
  shows "\<exists>u1. map_get (uniforms s1) name = Some u1 \<and> u_type u1 = ty
           \<and> size_t_mul count sz \<le> u_size u1
           \<and> take (size_t_mul count sz) (u_value u1) = take (size_t_mul count sz) data"
proof -
  let ?n = "size_t_mul count sz"
  from ok found have ty: "u_type u = ty" and fits: "?n \<le> u_size u"
    by (auto simp: lovrShaderSetUniform_def split: if_splits)
  show ?thesis
  proof (cases "\<not> u_dirty u \<and> memcmp_eq (u_value u) data ?n")
    case True
    then have "s1 = shader" using ok found ty fits by (simp add: lovrShaderSetUniform_def)
    then show ?thesis using found ty fits True by (auto simp: memcmp_eq_def)
  next
    case False
    let ?u = "u\<lparr>u_value := memcpy (u_value u) data ?n, u_dirty := True\<rparr>"
    have s1: "s1 = shader\<lparr>uniforms := map_set (uniforms shader) name ?u\<rparr>"
      using False ok found ty fits by (auto simp: lovrShaderSetUniform_def)
    have "map_get (uniforms s1) name = Some ?u"
      by (simp add: s1 map_get_map_set)
    moreover have "take ?n (u_value ?u) = take ?n data"
      using len by (simp add: take_memcpy)
    ultimately show ?thesis using ty fits by auto
  qed
qed


subsection \<open>Over-capacity counts and values that fit\<close>

text \<open>
  C4. On a uniform of the shader's table, a set call whose byte count
  \<open>count * size\<close> exceeds the uniform's size fails with an error and leaves the shader,
  so the cached bytes and the dirty flag, exactly as it was. A call of the uniform's
  type whose bytes fit returns normally, and afterwards the first \<open>count * size\<close>
  bytes of the cached value are the bytes given (\<open>data\<close> holds at least that many).
\<close>

theorem set_uniform_capacity:
  assumes found: "map_get (uniforms shader) name = Some uniform"
  shows "(u_size uniform < size_t_mul count sz \<longrightarrow>
            (\<exists>e. lovrShaderSetUniform shader name ty data count sz debug = (Inl e, shader)))
       \<and> (u_type uniform = ty \<and> size_t_mul count sz \<le> u_size uniform
            \<and> size_t_mul count sz \<le> length data \<longrightarrow>
            (\<exists>shader' uniform'.
               lovrShaderSetUniform shader name ty data count sz debug = (Inr (), shader')
               \<and> map_get (uniforms shader') name = Some uniform'
               \<and> take (size_t_mul count sz) (u_value uniform') = take (size_t_mul count sz) data))"
proof (intro conjI impI)
  assume "u_size uniform < size_t_mul count sz"
  then show "\<exists>e. lovrShaderSetUniform shader name ty data count sz debug = (Inl e, shader)"
    using found by (simp add: lovrShaderSetUniform_def)
next
  let ?n = "size_t_mul count sz"
  assume fits: "u_type uniform = ty \<and> ?n \<le> u_size uniform \<and> ?n \<le> length data"
  obtain r s1 where run: "lovrShaderSetUniform shader name ty data count sz debug = (r, s1)"
    by (cases "lovrShaderSetUniform shader name ty data count sz debug")
  then have r: "r = Inr ()"
    using found fits by (auto simp: lovrShaderSetUniform_def split: if_splits)
  then have "\<exists>u1. map_get (uniforms s1) name = Some u1
      \<and> take ?n (u_value u1) = take ?n data"
    using set_ok_value [of shader name ty data count sz debug s1 uniform] run found fits
    by auto
  then show "\<exists>shader' uniform'.
          lovrShaderSetUniform shader name ty data count sz debug = (Inr (), shader')
          \<and> map_get (uniforms shader') name = Some uniform'
          \<and> take ?n (u_value uniform') = take ?n data"
    using run r by auto
qed

theorem set_uniform_capacity_witness:
  "lovrShaderSetFloat example_shader ''x'' (float_one @ float_one) 2
     = (Inl (ExpectedAtMost ''float'' 2), example_shader)
   \<and> (\<exists>shader' uniform'.
        lovrShaderSetFloat example_shader ''x'' float_one 1 = (Inr (), shader')
        \<and> map_get (uniforms shader') ''x'' = Some uniform'
        \<and> take 4 (u_value uniform') = float_one)"
proof -
  have over: "u_size example_uniform < size_t_mul 2 4"
    by (simp add: size_t_mul_2_4) (simp add: example_uniform_def)
  have fits: "u_type example_uniform = UNIFORM_FLOAT
      \<and> size_t_mul 1 4 \<le> u_size example_uniform \<and> size_t_mul 1 4 \<le> length float_one"
    by (simp add: size_t_mul_1_4) (simp add: example_uniform_def float_one_def)
  have a: "\<exists>e. lovrShaderSetFloat example_shader ''x'' (float_one @ float_one) 2
      = (Inl e, example_shader)"
    using set_uniform_capacity [OF example_get, of 2 4 UNIFORM_FLOAT "float_one @ float_one"
        "''float''"] over
    by (simp add: lovrShaderSetFloat_def)
  have a': "lovrShaderSetFloat example_shader ''x'' (float_one @ float_one) 2
      = (Inl (ExpectedAtMost ''float'' 2), example_shader)"
    using a over fits
    by (auto simp: lovrShaderSetFloat_def lovrShaderSetUniform_def example_get
        split: if_splits)
  have b: "\<exists>shader' uniform'.
        lovrShaderSetFloat example_shader ''x'' float_one 1 = (Inr (), shader')
        \<and> map_get (uniforms shader') ''x'' = Some uniform'
        \<and> take 4 (u_value uniform') = float_one"
    using set_uniform_capacity [OF example_get, of 1 4 UNIFORM_FLOAT float_one "''float''"] fits
    by (simp add: lovrShaderSetFloat_def size_t_mul_1_4) (simp add: float_one_def)
  show ?thesis using a' b by simp
qed

subsection \<open>Setting the value that is already cached\<close>



subsection \<open>Unknown uniform names\<close>

text \<open>
  C10. A set call naming a uniform that is not in the shader's table returns normally,
  with no error, and leaves the shader as it was, whatever the type, data and count. On
  a uniform that is in the table, a type mismatch and an over-capacity count each end in
  an error instead.
\<close>

theorem set_unknown_uniform_silent:
  "(map_get (uniforms shader) name = None \<longrightarrow>
      lovrShaderSetUniform shader name ty data count sz debug = (Inr (), shader))
   \<and> (map_get (uniforms shader) name = Some uniform \<and> u_type uniform \<noteq> ty \<longrightarrow>
      lovrShaderSetUniform shader name ty data count sz debug = (Inl (UnableToSend debug), shader))
   \<and> (map_get (uniforms shader) name = Some uniform \<and> u_type uniform = ty
        \<and> u_size uniform < size_t_mul count sz \<longrightarrow>
      lovrShaderSetUniform shader name ty data count sz debug
        = (Inl (ExpectedAtMost debug count), shader))"
  by (simp add: lovrShaderSetUniform_def)

theorem set_unknown_uniform_silent_witness:
  "map_get (uniforms example_shader) ''y'' = None
   \<and> lovrShaderSetFloat example_shader ''y'' float_one 1 = (Inr (), example_shader)
   \<and> lovrShaderSetInt example_shader ''x'' float_one 1
       = (Inl (UnableToSend ''int''), example_shader)
   \<and> lovrShaderSetFloat example_shader ''x'' (float_one @ float_one) 2
       = (Inl (ExpectedAtMost ''float'' 2), example_shader)"
proof -
  have none: "map_get (uniforms example_shader) ''y'' = None"
    by (simp add: map_get_def example_shader_def)
  have ty: "u_type example_uniform \<noteq> UNIFORM_INT" "u_type example_uniform = UNIFORM_FLOAT"
    by (simp_all add: example_uniform_def)
  have over: "u_size example_uniform < size_t_mul 2 4"
    by (simp add: size_t_mul_2_4) (simp add: example_uniform_def)
  have a: "lovrShaderSetFloat example_shader ''y'' float_one 1 = (Inr (), example_shader)"
    using set_unknown_uniform_silent [of example_shader "''y''" UNIFORM_FLOAT float_one 1 4
        "''float''" example_uniform] none
    by (simp add: lovrShaderSetFloat_def)
  have b: "lovrShaderSetInt example_shader ''x'' float_one 1
       = (Inl (UnableToSend ''int''), example_shader)"
    using set_unknown_uniform_silent [of example_shader "''x''" UNIFORM_INT float_one 1 4
        "''int''" example_uniform] example_get ty
    by (simp add: lovrShaderSetInt_def)
  have c: "lovrShaderSetFloat example_shader ''x'' (float_one @ float_one) 2
       = (Inl (ExpectedAtMost ''float'' 2), example_shader)"
    using set_unknown_uniform_silent [of example_shader "''x''" UNIFORM_FLOAT
        "float_one @ float_one" 2 4 "''float''" example_uniform] example_get ty over
    by (simp add: lovrShaderSetFloat_def)
  show ?thesis using none a b c by simp
qed

section \<open>The state cache: hardware calls and value changes\<close>

subsection \<open>Sequences of cached binds\<close>



lemma other_request_uniformBuffer:
  "requested_uniformBuffer j r = None \<Longrightarrow>
   List.map_filter (requested_uniformBuffer j) (r # rs) = List.map_filter (requested_uniformBuffer j) rs"
  by (simp add: map_filter_simps)






subsection \<open>Applying a pipeline twice\<close>



lemma snd_then_do: "snd (then_do f g st) = snd (f st) @ snd (g (fst (f st)))"
  by (simp add: then_do_def split_beta)














subsection \<open>Calls counted against changes\<close>






section \<open>Shader block packing\<close>

lemma in_scope_step:
  assumes "packing_in_scope u"
  shows "(if u_type u \<noteq> UNIFORM_MATRIX
          then (if u_count u = 1 then offset + 4 else offset + u_count u * 16)
          else offset + u_components u * u_components u * 4)
         = offset + spec_packed_size u"
  using assms by (auto simp: packing_in_scope_def spec_packed_size_def split: if_splits)

lemma length_block_offsets: "length (fst (block_offsets offset us)) = length us"
  by (induction us arbitrary: offset) (auto simp: Let_def split_beta)

lemma block_offsets_total:
  "\<forall>u \<in> set us. packing_in_scope u \<Longrightarrow>
   snd (block_offsets offset us) = offset + sum_list (map spec_packed_size us)"
proof (induction us arbitrary: offset)
  case Nil
  show ?case by simp
next
  case (Cons u us)
  have u: "packing_in_scope u" and rest: "\<forall>v \<in> set us. packing_in_scope v"
    using Cons.prems by auto
  show ?case
    using Cons.IH [OF rest, of "offset + spec_packed_size u"]
    by (simp add: Let_def split_beta in_scope_step [OF u])
qed

lemma block_offsets_nth:
  "\<forall>u \<in> set us. packing_in_scope u \<Longrightarrow> i < length us \<Longrightarrow>
   fst (block_offsets offset us) ! i
     = (us ! i)\<lparr>u_offset := offset + sum_list (map spec_packed_size (take i us))\<rparr>"
proof (induction us arbitrary: offset i)
  case Nil
  then show ?case by simp
next
  case (Cons u us)
  have u: "packing_in_scope u" and rest: "\<forall>v \<in> set us. packing_in_scope v"
    using Cons.prems by auto
  show ?case
  proof (cases i)
    case 0
    then show ?thesis by (simp add: Let_def split_beta)
  next
    case (Suc j)
    then have j: "j < length us" using Cons.prems by simp
    show ?thesis
      using Cons.IH [OF rest j, of "offset + spec_packed_size u"]
      by (simp add: Suc Let_def split_beta in_scope_step [OF u] add.assoc)
  qed
qed

text \<open>
  C7, as stated, fails on two scalar uniforms: the second is placed at offset 4, not in
  a 16-byte slot of its own at 16, and the buffer is given 8 bytes, not 32.
\<close>

theorem scalar_slot_counterexample:
  "(case lovrShaderBlockCreate
           [example_uniform_of UNIFORM_FLOAT 1 1, example_uniform_of UNIFORM_FLOAT 1 1] 2 5
           lovrGpuInit of
      (block, us, st, calls) \<Rightarrow>
        map u_offset us = [0, 4] \<and> u_offset (us ! 1) \<noteq> 16
        \<and> last calls = GlBufferData GL_UNIFORM_BUFFER 8 None GL_STATIC_DRAW)"
  by (simp add: lovrShaderBlockCreate_def example_uniform_of_def lovrGpuBindUniformBuffer_def
      lovrGpuInit_def)

text \<open>
  C7, amended. For a shader block created from an ordered uniform list made of single
  matrices, scalars and non-matrix arrays, the byte offset written to each of the first
  \<open>uniformCount\<close> uniforms is the sum of the sizes of the uniforms before it, where a
  matrix takes components squared times 4 bytes, a scalar 4 bytes and an array 16
  bytes per element; the entries after \<open>uniformCount\<close> are not touched; and the buffer
  is allocated, by the last call, with the packed total of those sizes. The offsets are
  those of the caller's array, which the function writes; the block's own copy of the
  array is taken before they are computed.
\<close>

theorem block_offsets_follow_packing:
  assumes count: "uniformCount \<le> length us"
    and scope: "\<forall>u \<in> set (take uniformCount us). packing_in_scope u"
    and run: "lovrShaderBlockCreate us uniformCount buffer st = (block, us', st', calls)"
  shows "length us' = length us
       \<and> (\<forall>i < uniformCount.
            us' ! i = (us ! i)\<lparr>u_offset := sum_list (map spec_packed_size (take i us))\<rparr>)
       \<and> drop uniformCount us' = drop uniformCount us
       \<and> last calls = GlBufferData GL_UNIFORM_BUFFER
                        (sum_list (map spec_packed_size (take uniformCount us))) None GL_STATIC_DRAW
       \<and> sb_buffer block = buffer \<and> sb_uniformCount block = uniformCount
       \<and> sb_uniforms block = take MAX_SHADER_BLOCK_UNIFORMS us"
proof -
  let ?head = "take uniformCount us"
  let ?packed = "fst (block_offsets 0 ?head)"
  have len: "length ?packed = uniformCount"
    using count by (simp add: length_block_offsets)
  have us': "us' = ?packed @ drop uniformCount us"
    and calls: "last calls = GlBufferData GL_UNIFORM_BUFFER (snd (block_offsets 0 ?head)) None
                  GL_STATIC_DRAW"
    and block: "block = \<lparr>sb_uniforms = take MAX_SHADER_BLOCK_UNIFORMS us,
                   sb_uniformCount = uniformCount, sb_buffer = buffer\<rparr>"
    using run by (auto simp: lovrShaderBlockCreate_def split_beta)
  have nth: "us' ! i = (us ! i)\<lparr>u_offset := sum_list (map spec_packed_size (take i us))\<rparr>"
    if i: "i < uniformCount" for i
  proof -
    have "us' ! i = ?packed ! i"
      using i len by (simp add: us' nth_append)
    also have "\<dots> = (?head ! i)\<lparr>u_offset := 0 + sum_list (map spec_packed_size (take i ?head))\<rparr>"
      using scope i count by (intro block_offsets_nth) auto
    also have "\<dots> = (us ! i)\<lparr>u_offset := sum_list (map spec_packed_size (take i us))\<rparr>"
      using i by (simp add: min_def)
    finally show ?thesis .
  qed
  have total: "snd (block_offsets 0 ?head) = sum_list (map spec_packed_size ?head)"
    using block_offsets_total [OF scope, of 0] by simp
  show ?thesis
    using nth count len by (simp add: us' calls total block)
qed

lemma example_block_run:
  "lovrShaderBlockCreate example_block_uniforms 4 5 lovrGpuInit
     = (\<lparr>sb_uniforms = example_block_uniforms, sb_uniformCount = 4, sb_buffer = 5\<rparr>,
        [(example_uniform_of UNIFORM_FLOAT 1 1)\<lparr>u_offset := 0\<rparr>,
         (example_uniform_of UNIFORM_MATRIX 4 1)\<lparr>u_offset := 4\<rparr>,
         (example_uniform_of UNIFORM_FLOAT 4 3)\<lparr>u_offset := 68\<rparr>,
         (example_uniform_of UNIFORM_INT 1 1)\<lparr>u_offset := 116\<rparr>],
        lovrGpuInit\<lparr>st_uniformBuffers := (st_uniformBuffers lovrGpuInit)(0 := 5)\<rparr>,
        [GlGenBuffers 5, GlBindBufferBase GL_UNIFORM_BUFFER 0 5,
         GlBufferData GL_UNIFORM_BUFFER 120 None GL_STATIC_DRAW])"
  by (simp add: lovrShaderBlockCreate_def example_block_uniforms_def example_uniform_of_def
      lovrGpuBindUniformBuffer_def lovrGpuInit_def MAX_SHADER_BLOCK_UNIFORMS_def)

theorem block_offsets_follow_packing_witness:
  "(4::nat) \<le> length example_block_uniforms
   \<and> list_all packing_in_scope (take 4 example_block_uniforms)
   \<and> map spec_packed_size example_block_uniforms = [4, 64, 48, 4]
   \<and> (case lovrShaderBlockCreate example_block_uniforms 4 5 lovrGpuInit of
        (block, us, st, calls) \<Rightarrow>
          map u_offset us = [0, 4, 68, 116]
          \<and> last calls = GlBufferData GL_UNIFORM_BUFFER 120 None GL_STATIC_DRAW
          \<and> last calls = GlBufferData GL_UNIFORM_BUFFER
               (sum_list (map spec_packed_size (take 4 example_block_uniforms))) None
               GL_STATIC_DRAW)"
proof -
  have count: "(4::nat) \<le> length example_block_uniforms"
    by (simp add: example_block_uniforms_def)
  have scope: "list_all packing_in_scope (take 4 example_block_uniforms)"
    by (simp add: example_block_uniforms_def example_uniform_of_def packing_in_scope_def)
  then have scope': "\<forall>u \<in> set (take 4 example_block_uniforms). packing_in_scope u"
    by (simp add: list_all_iff)
  have sizes: "map spec_packed_size example_block_uniforms = [4, 64, 48, 4]"
    by (simp add: example_block_uniforms_def example_uniform_of_def spec_packed_size_def)
  show ?thesis
    using block_offsets_follow_packing [OF count scope' example_block_run] count scope sizes
    by (simp add: example_block_run)
qed

section \<open>Mesh growth\<close>






lemma floorlog_2_4: "floorlog 2 4 = 3"
  by (simp add: compute_floorlog)




section \<open>Buffer mapping and the synchronization tracker\<close>

lemma bit_test_iff: "(x AND 2 ^ i = 0) = (\<not> bit x i)" for x :: u32
  by (rule and_exp_eq_0_iff_not_bit)

lemma bit_nonzero: "bit x n \<Longrightarrow> x \<noteq> 0" for x :: u32
  by auto

lemma and_WRITE_MASK_nonzero:
  assumes "GPU_WRITE_UPLOAD e < 32"
  shows "and_WRITE_MASK e x \<noteq> 0"
proof -
  have "bit (and_WRITE_MASK e x) (GPU_WRITE_UPLOAD e)"
    using assms by (simp add: and_WRITE_MASK_def bit_simps)
  then show ?thesis by (rule bit_nonzero)
qed

lemma upload_is_write:
  assumes "GPU_WRITE_UPLOAD e < 32"
  shows "push_bit (GPU_WRITE_UPLOAD e) 1 AND WRITE_MASK e \<noteq> 0"
proof -
  have "bit (push_bit (GPU_WRITE_UPLOAD e) (1::u32) AND WRITE_MASK e) (GPU_WRITE_UPLOAD e)"
    using assms by (simp add: WRITE_MASK_def bit_simps)
  then show ?thesis by (rule bit_nonzero)
qed

lemma gpu_log_clear_category: "gpu_log (clear_category before i s) = gpu_log s"
  by (simp add: clear_category_def)

lemma gpu_log_fold_clear: "gpu_log (fold (clear_category before) is s) = gpu_log s"
  by (induction "is" arbitrary: s) (simp_all add: gpu_log_clear_category)

lemma gpu_log_clear_pending: "gpu_log (clear_pending e before s) = gpu_log s"
  by (simp add: clear_pending_def gpu_log_fold_clear)

lemma clear_access_apply:
  "clear_access i ps mem p = (if p \<in> set ps then mem p AND NOT (push_bit i 1) else mem p)"
  by (induction ps arbitrary: mem) (auto simp: and.assoc)

lemma bit_clear_access:
  "bit (clear_access i ps mem p) k = (bit (mem p) k \<and> \<not> (k = i \<and> p \<in> set ps))" for k :: nat
  by (auto simp: clear_access_apply bit_simps dest: bit_imp_le_length)

lemma sync_clear_category:
  "sync (clear_category before i s) j = (if bit before i \<and> j = i then [] else sync s j)"
  by (simp add: clear_category_def bit_test_iff)

lemma bit_access_clear_category:
  "bit (access (clear_category before i s) p) k
     = (bit (access s p) k \<and> \<not> (k = i \<and> bit before i \<and> p \<in> set (sync s i)))"
  by (simp add: clear_category_def bit_test_iff bit_clear_access)

text \<open>The state after the first \<open>n\<close> rounds of the outer loop.\<close>

lemma clear_rounds:
  "sync (fold (clear_category before) [0 ..< n] s) j
     = (if j < n \<and> bit before j then [] else sync s j)
   \<and> (\<forall>p k. bit (access (fold (clear_category before) [0 ..< n] s) p) k
        = (bit (access s p) k \<and> \<not> (k < n \<and> bit before k \<and> p \<in> set (sync s k))))"
proof (induction n arbitrary: j)
  case 0
  show ?case by simp
next
  case (Suc n)
  let ?s = "fold (clear_category before) [0 ..< n] s"
  have sync_n: "sync ?s n = sync s n"
    using Suc [of n] by simp
  have step: "fold (clear_category before) [0 ..< Suc n] s = clear_category before n ?s"
    by simp
  show ?case
    unfolding step sync_clear_category bit_access_clear_category sync_n
    using Suc by (auto simp: less_Suc_eq)
qed

lemma sync_clear_pending:
  "sync (clear_pending e before s) j
     = (if j < GPU_ACCESS_COUNT e \<and> bit before j then [] else sync s j)"
  using clear_rounds [of before "GPU_ACCESS_COUNT e" s j] by (simp add: clear_pending_def)

lemma bit_access_clear_pending:
  "bit (access (clear_pending e before s) p) k
     = (bit (access s p) k
        \<and> \<not> (k < GPU_ACCESS_COUNT e \<and> bit before k \<and> p \<in> set (sync s k)))"
  using clear_rounds [of before "GPU_ACCESS_COUNT e" s 0] by (simp add: clear_pending_def)

lemma barrier_test:
  assumes "GPU_WRITE_UPLOAD e < 32"
  shows "(before \<noteq> 0 \<and> (and_WRITE_MASK e before \<noteq> 0 \<or> and_WRITE_MASK e after \<noteq> 0))
         = (before \<noteq> 0)"
  by (simp add: and_WRITE_MASK_nonzero [OF assms])

text \<open>
  C1. A map of a buffer with no pending access issues no barrier: the only call is the
  mapping itself. A map of a buffer with any pending access issues exactly one
  \<open>gpu_sync\<close>, from the pending accesses to the upload write, and issues it before the
  mapping. The access that a map records is the upload write, which is in the write
  mask, so that a map is never a read-only access and the case of a read-only access
  after read-only accesses does not arise in it.
\<close>

theorem buffer_map_barriers:
  assumes "GPU_WRITE_UPLOAD e < 32"
  shows "gpu_log (lovrBufferMap e buffer offset sz s)
           = gpu_log s
             @ (if access s buffer = 0 then []
                else [Gpu_sync (access s buffer) (push_bit (GPU_WRITE_UPLOAD e) 1)])
             @ [Gpu_buffer_map buffer offset sz]
         \<and> push_bit (GPU_WRITE_UPLOAD e) 1 AND WRITE_MASK e \<noteq> 0"
  using upload_is_write [OF assms]
  by (simp add: lovrBufferMap_def Let_def and_WRITE_MASK_nonzero [OF assms] gpu_sync_def
      gpu_log_clear_pending)

lemma example_upload: "GPU_WRITE_UPLOAD example_access < 32"
  by (simp add: example_access_def)

theorem buffer_map_barriers_witness:
  "gpu_log (lovrBufferMap example_access 10 0 16 gfx_init) = [Gpu_buffer_map 10 0 16]
   \<and> gpu_log (lovrBufferMap example_access 10 0 16 example_gfx)
       = [Gpu_sync 0x80 0x80, Gpu_buffer_map 10 0 16]
   \<and> gpu_log (lovrBufferMap example_access 30 0 16 example_gfx)
       = [Gpu_sync 4 0x80, Gpu_buffer_map 30 0 16]"
proof -
  have u: "2 ^ GPU_WRITE_UPLOAD example_access = (0x80::u32)"
    by (simp add: example_access_def)
  have a: "access gfx_init 10 = 0" "access example_gfx 10 = 0x80" "access example_gfx 30 = 4"
    "gpu_log gfx_init = []" "gpu_log example_gfx = []"
    by (simp_all add: gfx_init_def example_gfx_def)
  show ?thesis
    using buffer_map_barriers [OF example_upload, of 10 0 16 gfx_init]
      buffer_map_barriers [OF example_upload, of 10 0 16 example_gfx]
      buffer_map_barriers [OF example_upload, of 30 0 16 example_gfx]
    by (simp add: u a)
qed

text \<open>
  C2. The clearing that goes with a barrier for a resource whose pending access set is
  \<open>before\<close>: for every category below \<open>GPU_ACCESS_COUNT\<close> whose bit is set in
  \<open>before\<close>, the tracking list of the category is emptied and the bit is clear
  afterwards in every resource the list held; the other tracking lists are as they were;
  and a resource whose pending accesses share no bit with \<open>before\<close> keeps its mask. In
  a map of a buffer with pending accesses, every other resource is left with the mask
  this clearing gives it.
\<close>

theorem barrier_clears_shared_bits:
  "(i < GPU_ACCESS_COUNT e \<and> bit before i \<longrightarrow>
       sync (clear_pending e before s) i = []
       \<and> (\<forall>p \<in> set (sync s i). \<not> bit (access (clear_pending e before s) p) i))
   \<and> (\<not> (i < GPU_ACCESS_COUNT e \<and> bit before i) \<longrightarrow>
       sync (clear_pending e before s) i = sync s i)
   \<and> (access s p AND before = 0 \<longrightarrow> access (clear_pending e before s) p = access s p)
   \<and> (GPU_WRITE_UPLOAD e < 32 \<and> access s buffer \<noteq> 0 \<and> p \<noteq> buffer \<longrightarrow>
       access (lovrBufferMap e buffer offset sz s) p
         = access (clear_pending e (access s buffer) s) p)"
proof (intro conjI impI)
  assume "i < GPU_ACCESS_COUNT e \<and> bit before i"
  then show "sync (clear_pending e before s) i = []"
    by (simp add: sync_clear_pending)
next
  assume "i < GPU_ACCESS_COUNT e \<and> bit before i"
  then show "\<forall>p \<in> set (sync s i). \<not> bit (access (clear_pending e before s) p) i"
    by (simp add: bit_access_clear_pending)
next
  assume "\<not> (i < GPU_ACCESS_COUNT e \<and> bit before i)"
  then show "sync (clear_pending e before s) i = sync s i"
    by (auto simp: sync_clear_pending)
next
  assume none: "access s p AND before = 0"
  have "\<not> (bit (access s p) k \<and> bit before k)" for k
  proof -
    have "bit (access s p AND before) k = (bit (access s p) k \<and> bit before k)"
      by (simp add: bit_simps)
    then show ?thesis by (simp add: none)
  qed
  then show "access (clear_pending e before s) p = access s p"
    by (intro bit_word_eqI) (auto simp: bit_access_clear_pending)
next
  assume a: "GPU_WRITE_UPLOAD e < 32 \<and> access s buffer \<noteq> 0 \<and> p \<noteq> buffer"
  then have up: "GPU_WRITE_UPLOAD e < 32" by simp
  show "access (lovrBufferMap e buffer offset sz s) p
          = access (clear_pending e (access s buffer) s) p"
    using a by (simp add: lovrBufferMap_def Let_def and_WRITE_MASK_nonzero [OF up] gpu_sync_def)
qed

lemma example_clear:
  "clear_pending example_access 0x80 example_gfx
     = \<lparr>access = (\<lambda>_. 0)(30 := 4), sync = (\<lambda>_. [])(2 := [30]), gpu_log = []\<rparr>"
  by (simp add: clear_pending_def example_access_def example_gfx_def clear_category_def
      upt_rec fun_eq_iff)

theorem barrier_clears_shared_bits_witness:
  "(7::nat) < GPU_ACCESS_COUNT example_access \<and> bit (0x80::u32) (7::nat)
   \<and> sync example_gfx 7 = [10, 20]
   \<and> sync (clear_pending example_access 0x80 example_gfx) 7 = []
   \<and> \<not> bit (access (clear_pending example_access 0x80 example_gfx) 20) (7::nat)
   \<and> access (clear_pending example_access 0x80 example_gfx) 20 = 0
   \<and> sync (clear_pending example_access 0x80 example_gfx) 2 = [30]
   \<and> access example_gfx 30 AND 0x80 = 0
   \<and> access (clear_pending example_access 0x80 example_gfx) 30 = 4
   \<and> access (lovrBufferMap example_access 10 0 16 example_gfx) 20 = 0"
proof -
  have pre: "(7::nat) < GPU_ACCESS_COUNT example_access \<and> bit (0x80::u32) (7::nat)"
    by (simp add: example_access_def bit_simps)
  have s7: "sync example_gfx 7 = [10, 20]" and a1: "access example_gfx 10 = 0x80"
    and a3: "access example_gfx 30 AND 0x80 = 0" "access example_gfx 30 = 4"
    by (simp_all add: example_gfx_def)
  have other: "\<not> ((2::nat) < GPU_ACCESS_COUNT example_access \<and> bit (0x80::u32) (2::nat))"
    by (simp add: bit_simps)
  have s2: "sync example_gfx 2 = [30]"
    by (simp add: example_gfx_def)
  note inst = barrier_clears_shared_bits [of _ example_access "0x80" example_gfx]
  from inst [of 7 30 10 0 16] pre s7 a3
  have A: "sync (clear_pending example_access 0x80 example_gfx) 7 = []
      \<and> \<not> bit (access (clear_pending example_access 0x80 example_gfx) 20) (7::nat)
      \<and> access (clear_pending example_access 0x80 example_gfx) 30 = 4"
    by simp
  from inst [of 2 20 10 0 16] other s2 a1 example_upload
  have B: "sync (clear_pending example_access 0x80 example_gfx) 2 = [30]
      \<and> access (lovrBufferMap example_access 10 0 16 example_gfx) 20
         = access (clear_pending example_access 0x80 example_gfx) 20"
    by simp
  have C: "access (clear_pending example_access 0x80 example_gfx) 20 = 0"
    by (simp add: example_clear)
  show ?thesis using pre s7 a3 A B C by simp
qed

section \<open>Mipmap counts\<close>

lemma floorlog_2_16: "floorlog 2 16 = 5"
  by (simp add: compute_floorlog)

text \<open>
  With mipmaps on and a positive dimension, the count of \<open>lovrTextureAllocate\<close> is
  \<open>\<lfloor>log\<^sub>2 dimension\<rfloor> + 1\<close>, the depth entering the dimension for volume textures only.
\<close>

lemma allocate_mipmapCount_formula:
  assumes "0 < (if ty = TEXTURE_VOLUME then max (max w h) d else max w h)"
  shows "lovrTextureAllocate_mipmapCount ty True w h d
         = Some (nat \<lfloor>log 2 (real_of_int
             (if ty = TEXTURE_VOLUME then max (max w h) d else max w h))\<rfloor> + 1)"
  using assms
  by (auto simp: lovrTextureAllocate_mipmapCount_def log2_plus_1_def floorlog_def Let_def)

text \<open>
  C8. The count of \<open>lovrTextureCreate\<close> on the GPU core takes the third size into the
  maximum for every texture type: an array texture of 4 by 4 texels and 16 layers gets
  5 mipmaps where the claim, and \<open>lovrTextureAllocate\<close> of the OpenGL backend on the
  same sizes, give \<open>\<lfloor>log\<^sub>2 4\<rfloor> + 1 = 3\<close>. The 4 by 4 texture of type 2D gets 3 in both.
\<close>

theorem array_layers_enter_mipmap_count:
  "lovrTextureCreate_mipmaps (example_info TEXTURE_ARRAY 4 4 16) = Some 5
   \<and> lovrTextureAllocate_mipmapCount TEXTURE_ARRAY True 4 4 16 = Some 3
   \<and> lovrTextureCreate_mipmaps (example_info TEXTURE_2D 4 4 1) = Some 3
   \<and> lovrTextureAllocate_mipmapCount TEXTURE_2D True 4 4 1 = Some 3"
  by (simp add: lovrTextureCreate_mipmaps_def example_info_def
      lovrTextureAllocate_mipmapCount_def log2_plus_1_def floorlog_2_16 floorlog_2_4)

section \<open>Texture views and reference counts\<close>

subsection \<open>Counting live views\<close>

lemma sum_list_map_update:
  fixes f :: "'a \<Rightarrow> nat"
  shows "p < length xs \<Longrightarrow> sum_list (map f (xs[p := y])) + f (xs ! p) = sum_list (map f xs) + f y"
proof (induction xs arbitrary: p)
  case Nil
  then show ?case by simp
next
  case (Cons x xs)
  show ?case
  proof (cases p)
    case 0
    then show ?thesis by simp
  next
    case (Suc q)
    then have "q < length xs" using Cons.prems by simp
    from Cons.IH [OF this] show ?thesis by (simp add: Suc)
  qed
qed

lemma views_update:
  "p < length h \<Longrightarrow> views (h[p := t]) s + views_onto s (h ! p) = views h s + views_onto s t"
  unfolding views_def by (rule sum_list_map_update)

lemma views_update_same:
  assumes "p < length h" and "views_onto s t = views_onto s (h ! p)"
  shows "views (h[p := t]) s = views h s"
  using views_update [OF assms(1), of t s] assms(2) by simp

lemma views_append: "views (h @ [t]) s = views h s + views_onto s t"
  by (simp add: views_def)

lemma views_ge: "p < length h \<Longrightarrow> views_onto s (h ! p) \<le> views h s"
  unfolding views_def using elem_le_sum_list [of p "map (views_onto s) h"] by simp

lemma views_beyond:
  assumes "\<forall>p < length h. \<forall>s. source_of (h ! p) = Some s \<longrightarrow> s < p" and "length h \<le> s"
  shows "views h s = 0"
proof -
  have "views_onto s t = 0" if "t \<in> set h" for t
  proof -
    from that obtain p where p: "p < length h" "h ! p = t"
      by (auto simp: in_set_conv_nth)
    then have "source_of t \<noteq> Some s"
      using assms by fastforce
    then show ?thesis by (simp add: views_onto_def)
  qed
  then show ?thesis by (simp add: views_def)
qed

lemma views_onto_ref [simp]: "views_onto s (t\<lparr>t_ref := r\<rparr>) = views_onto s t"
  by (simp add: views_onto_def source_of_def)

lemma views_onto_dead [simp]: "views_onto s (t\<lparr>t_gpu := False\<rparr>) = 0"
  by (simp add: views_onto_def)

lemma source_of_ref [simp]: "source_of (t\<lparr>t_ref := r\<rparr>) = source_of t"
  by (simp add: source_of_def)

lemma source_of_gpu [simp]: "source_of (t\<lparr>t_gpu := g\<rparr>) = source_of t"
  by (simp add: source_of_def)

subsection \<open>The three ways a release goes\<close>

lemma release_shared:
  assumes "p < length h" and "1 < t_ref (h ! p)"
  shows "lovrRelease h p = Some (h[p := (h ! p)\<lparr>t_ref := t_ref (h ! p) - 1\<rparr>])"
  using assms by (subst lovrRelease.simps) simp

lemma release_last_plain:
  assumes "p < length h" and "t_ref (h ! p) = 1" and "source_of (h ! p) = None"
  shows "lovrRelease h p = Some (h[p := (h ! p)\<lparr>t_ref := 0, t_gpu := False\<rparr>])"
  using assms by (subst lovrRelease.simps) (simp add: lovrTextureDestroy.simps)

lemma release_last_view:
  assumes "p < length h" and "t_ref (h ! p) = 1" and "source_of (h ! p) = Some s"
  shows "lovrRelease h p = lovrRelease (h[p := (h ! p)\<lparr>t_ref := 0, t_gpu := False\<rparr>]) s"
  using assms by (subst lovrRelease.simps) (simp add: lovrTextureDestroy.simps)

subsection \<open>Accounting for every reference\<close>

lemma accountedD:
  assumes "accounted h held x" and "p < length h"
  shows "t_ref (h ! p) = held p + views h p + (if x = Some p then 1 else 0)"
    and "t_gpu (h ! p) = (0 < t_ref (h ! p))"
    and "source_of (h ! p) = Some s \<Longrightarrow> s < p"
  using assms by (auto simp: accounted_def)

lemma accounted_held:
  assumes "accounted h held x" and "0 < held p"
  shows "p < length h"
proof (rule ccontr)
  assume "\<not> p < length h"
  then have "length h \<le> p" by simp
  then have "held p = 0" using assms(1) by (simp add: accounted_def)
  then show False using assms(2) by simp
qed

lemma accountedI:
  assumes "\<And>p. p < length h \<Longrightarrow>
             t_ref (h ! p) = held p + views h p + (if x = Some p then 1 else 0)"
    and "\<And>p. p < length h \<Longrightarrow> t_gpu (h ! p) = (0 < t_ref (h ! p))"
    and "\<And>p s. p < length h \<Longrightarrow> source_of (h ! p) = Some s \<Longrightarrow> s < p"
    and "\<And>p. length h \<le> p \<Longrightarrow> held p = 0"
  shows "accounted h held x"
  using assms by (simp add: accounted_def)

text \<open>
  Releasing the one reference that is still to be released settles the account, however
  far the release runs through sources.
\<close>

lemma release_accounted:
  "accounted h held (Some p) \<Longrightarrow> p < length h \<Longrightarrow>
   \<exists>h'. lovrRelease h p = Some h' \<and> accounted h' held None \<and> length h' = length h"
proof (induction p arbitrary: h rule: less_induct)
  case (less p)
  note acc = less.prems(1) and p = less.prems(2)
  have ref: "t_ref (h ! p) = held p + views h p + 1"
    using accountedD(1) [OF acc p] by simp
  have beyond: "held q = 0" if "length h \<le> q" for q
    using acc that by (simp add: accounted_def)
  show ?case
  proof (cases "t_ref (h ! p) = 1")
    case False
    define g where "g = h[p := (h ! p)\<lparr>t_ref := t_ref (h ! p) - 1\<rparr>]"
    have many: "1 < t_ref (h ! p)" using False ref by simp
    have rel: "lovrRelease h p = Some g"
      unfolding g_def using p many by (rule release_shared)
    have len: "length g = length h" by (simp add: g_def)
    have v: "views g s = views h s" for s
      using p by (simp add: g_def views_update_same)
    have self: "t_ref (g ! p) = held p + views h p" "t_gpu (g ! p) = t_gpu (h ! p)"
        "source_of (g ! p) = source_of (h ! p)"
      using p ref by (simp_all add: g_def)
    have rest: "g ! q = h ! q" if "q \<noteq> p" for q
      using that by (simp add: g_def)
    have "accounted g held None"
    proof (rule accountedI)
      fix q assume "q < length g"
      then have q: "q < length h" by (simp add: len)
      show "t_ref (g ! q) = held q + views g q + (if None = Some q then 1 else 0)"
        using accountedD(1) [OF acc q] self(1) rest [of q] by (cases "q = p") (simp_all add: v)
      show "t_gpu (g ! q) = (0 < t_ref (g ! q))"
      proof (cases "q = p")
        case True
        have "0 < held p + views h p" using many ref by simp
        then show ?thesis using accountedD(2) [OF acc p] many self True by simp
      next
        case False
        then show ?thesis using accountedD(2) [OF acc q] rest [of q] by simp
      qed
      fix s assume "source_of (g ! q) = Some s"
      then show "s < q"
        using accountedD(3) [OF acc q, of s] self(3) rest [of q] by (cases "q = p") simp_all
    next
      fix q assume "length g \<le> q"
      then show "held q = 0" using beyond by (simp add: len)
    qed
    then show ?thesis using rel len by simp
  next
    case True
    define g where "g = h[p := (h ! p)\<lparr>t_ref := 0, t_gpu := False\<rparr>]"
    have zero: "held p = 0" "views h p = 0" using True ref by simp_all
    have live: "t_gpu (h ! p)" using accountedD(2) [OF acc p] True by simp
    have len: "length g = length h" by (simp add: g_def)
    have v: "views g s + views_onto s (h ! p) = views h s" for s
      using views_update [OF p, of "(h ! p)\<lparr>t_ref := 0, t_gpu := False\<rparr>" s]
      by (simp add: g_def)
    have rest: "g ! q = h ! q" if "q \<noteq> p" for q
      using that by (simp add: g_def)
    have self: "t_ref (g ! p) = 0" "\<not> t_gpu (g ! p)" "source_of (g ! p) = source_of (h ! p)"
      using p by (simp_all add: g_def)
    show ?thesis
    proof (cases "source_of (h ! p)")
      case None
      have rel: "lovrRelease h p = Some g"
        unfolding g_def using p True None by (rule release_last_plain)
      have v': "views g s = views h s" for s
        using v [of s] None by (simp add: views_onto_def)
      have "accounted g held None"
      proof (rule accountedI)
        fix q assume "q < length g"
        then have q: "q < length h" by (simp add: len)
        show "t_ref (g ! q) = held q + views g q + (if None = Some q then 1 else 0)"
          using accountedD(1) [OF acc q] zero self(1) rest [of q]
          by (cases "q = p") (simp_all add: v')
        show "t_gpu (g ! q) = (0 < t_ref (g ! q))"
          using accountedD(2) [OF acc q] self rest [of q] by (cases "q = p") simp_all
        fix s assume "source_of (g ! q) = Some s"
        then show "s < q"
          using accountedD(3) [OF acc q, of s] self(3) rest [of q] by (cases "q = p") simp_all
      next
        fix q assume "length g \<le> q"
        then show "held q = 0" using beyond by (simp add: len)
      qed
      then show ?thesis using rel len by simp
    next
      case (Some s)
      have sp: "s < p" using accountedD(3) [OF acc p Some] .
      then have s: "s < length g" using p by (simp add: len)
      have rel: "lovrRelease h p = lovrRelease g s"
        unfolding g_def using p True Some by (rule release_last_view)
      have v': "views g q + (if q = s then 1 else 0) = views h q" for q
        using v [of q] Some live by (auto simp: views_onto_def)
      have "accounted g held (Some s)"
      proof (rule accountedI)
        fix q assume "q < length g"
        then have q: "q < length h" by (simp add: len)
        show "t_ref (g ! q) = held q + views g q + (if Some s = Some q then 1 else 0)"
        proof (cases "q = p")
          case True
          then show ?thesis using zero self(1) v' [of p] sp by simp
        next
          case False
          then show ?thesis
            using accountedD(1) [OF acc q] rest [of q] v' [of q] by auto
        qed
        show "t_gpu (g ! q) = (0 < t_ref (g ! q))"
          using accountedD(2) [OF acc q] self rest [of q] by (cases "q = p") simp_all
        fix r assume "source_of (g ! q) = Some r"
        then show "r < q"
          using accountedD(3) [OF acc q, of r] self(3) rest [of q] by (cases "q = p") simp_all
      next
        fix q assume "length g \<le> q"
        then show "held q = 0" using beyond by (simp add: len)
      qed
      from less.IH [OF sp this s] show ?thesis using rel len by auto
    qed
  qed
qed

lemma accounted_release_step:
  assumes acc: "accounted h held None" and held: "0 < held p"
  shows "\<exists>h'. lovrRelease h p = Some h' \<and> accounted h' (held(p := held p - 1)) None
           \<and> length h' = length h"
proof -
  have p: "p < length h" using acc held by (rule accounted_held)
  have "accounted h (held(p := held p - 1)) (Some p)"
  proof (rule accountedI)
    fix q assume q: "q < length h"
    show "t_ref (h ! q) = (held(p := held p - 1)) q + views h q + (if Some p = Some q then 1 else 0)"
      using accountedD(1) [OF acc q] held by auto
    show "t_gpu (h ! q) = (0 < t_ref (h ! q))"
      using accountedD(2) [OF acc q] .
    fix s assume "source_of (h ! q) = Some s"
    then show "s < q" using accountedD(3) [OF acc q] by simp
  next
    fix q assume "length h \<le> q"
    then show "(held(p := held p - 1)) q = 0"
      using acc by (simp add: accounted_def)
  qed
  then show ?thesis using p by (rule release_accounted)
qed

lemma accounted_create:
  assumes acc: "accounted h held None" and plain: "source_of t = None"
    and t: "t_ref t = 1" "t_gpu t"
  shows "accounted (h @ [t]) (held(length h := 1)) None"
proof (rule accountedI)
  have older: "\<forall>p < length h. \<forall>s. source_of (h ! p) = Some s \<longrightarrow> s < p"
    using acc by (simp add: accounted_def)
  have v: "views (h @ [t]) s = views h s" for s
    using plain by (simp add: views_append views_onto_def)
  fix q assume q: "q < length (h @ [t])"
  show "t_ref ((h @ [t]) ! q)
      = (held(length h := 1)) q + views (h @ [t]) q + (if None = Some q then 1 else 0)"
  proof (cases "q = length h")
    case True
    then show ?thesis using t views_beyond [OF older, of q] by (simp add: v)
  next
    case False
    then have "q < length h" using q by simp
    then show ?thesis using accountedD(1) [OF acc, of q] by (simp add: v nth_append)
  qed
  show "t_gpu ((h @ [t]) ! q) = (0 < t_ref ((h @ [t]) ! q))"
    using accountedD(2) [OF acc, of q] t q by (cases "q = length h") (simp_all add: nth_append)
  fix s assume "source_of ((h @ [t]) ! q) = Some s"
  then show "s < q"
    using accountedD(3) [OF acc, of q s] plain q
    by (cases "q = length h") (simp_all add: nth_append)
next
  fix q assume "length (h @ [t]) \<le> q"
  then show "(held(length h := 1)) q = 0"
    using acc by (simp add: accounted_def)
qed

lemma accounted_create_view:
  assumes acc: "accounted h held None" and s: "s < length h" and alive: "0 < t_ref (h ! s)"
    and src: "source_of t = Some s" and t: "t_ref t = 1" "t_gpu t"
  shows "accounted (lovrRetain (h @ [t]) s) (held(length h := 1)) None"
proof (rule accountedI)
  let ?h = "lovrRetain (h @ [t]) s"
  have h': "?h = h[s := (h ! s)\<lparr>t_ref := t_ref (h ! s) + 1\<rparr>] @ [t]"
    using s by (simp add: lovrRetain_def list_update_append nth_append)
  have older: "\<forall>p < length h. \<forall>s. source_of (h ! p) = Some s \<longrightarrow> s < p"
    using acc by (simp add: accounted_def)
  have v: "views ?h q = views h q + (if q = s then 1 else 0)" for q
    using s src t by (simp add: h' views_append views_update_same) (simp add: views_onto_def)
  have len: "length ?h = Suc (length h)" by (simp add: h')
  fix q assume "q < length ?h"
  then have q: "q < Suc (length h)" by (simp add: len)
  show "t_ref (?h ! q) = (held(length h := 1)) q + views ?h q + (if None = Some q then 1 else 0)"
  proof (cases "q = length h")
    case True
    then show ?thesis
      using t s views_beyond [OF older, of q] by (simp add: v) (simp add: h' nth_append)
  next
    case False
    then have q': "q < length h" using q by simp
    then show ?thesis
      using accountedD(1) [OF acc q'] s by (simp add: v) (auto simp: h' nth_append nth_list_update)
  qed
  show "t_gpu (?h ! q) = (0 < t_ref (?h ! q))"
  proof (cases "q = length h")
    case True
    then show ?thesis using t by (simp add: h' nth_append)
  next
    case False
    then have q': "q < length h" using q by simp
    then show ?thesis
      using accountedD(2) [OF acc q'] s alive by (auto simp: h' nth_append nth_list_update)
  qed
  fix r assume r: "source_of (?h ! q) = Some r"
  show "r < q"
  proof (cases "q = length h")
    case True
    then show ?thesis using r src s by (simp add: h' nth_append)
  next
    case False
    then have q': "q < length h" using q by simp
    then show ?thesis
      using accountedD(3) [OF acc q', of r] r s
      by (simp add: h' nth_append nth_list_update split: if_splits)
  qed
next
  fix q assume "length (lovrRetain (h @ [t]) s) \<le> q"
  then show "(held(length h := 1)) q = 0"
    using acc by (simp add: accounted_def lovrRetain_def)
qed

lemma accounted_retain:
  assumes acc: "accounted h held None" and held: "0 < held p"
  shows "accounted (lovrRetain h p) (held(p := held p + 1)) None"
proof (rule accountedI)
  let ?h = "lovrRetain h p"
  have p: "p < length h" using acc held by (rule accounted_held)
  have alive: "0 < t_ref (h ! p)" using accountedD(1) [OF acc p] held by simp
  have v: "views ?h s = views h s" for s
    using p by (simp add: lovrRetain_def views_update_same)
  fix q assume "q < length ?h"
  then have q: "q < length h" by (simp add: lovrRetain_def)
  show "t_ref (?h ! q) = (held(p := held p + 1)) q + views ?h q + (if None = Some q then 1 else 0)"
    using accountedD(1) [OF acc q] q p by (simp add: v) (auto simp: lovrRetain_def nth_list_update)
  show "t_gpu (?h ! q) = (0 < t_ref (?h ! q))"
    using accountedD(2) [OF acc q] q p alive by (auto simp: lovrRetain_def nth_list_update)
  fix s assume "source_of (?h ! q) = Some s"
  then show "s < q"
    using accountedD(3) [OF acc q, of s] q p
    by (simp add: lovrRetain_def nth_list_update split: if_splits)
next
  fix q assume "length (lovrRetain h p) \<le> q"
  then show "(held(p := held p + 1)) q = 0"
    using acc accounted_held [OF acc held] by (simp add: accounted_def lovrRetain_def)
qed

lemma reachable_accounted: "reachable h held \<Longrightarrow> accounted h held None"
proof (induction rule: reachable.induct)
  case start
  show ?case by (simp add: accounted_def)
next
  case (create h held info p h' info')
  let ?t = "\<lparr>t_ref = 1, t_gpu = True, t_info = info\<rparr>"
  have res: "p = length h" "h' = h @ [?t]"
    using create.hyps(3)
    by (cases "lovrTextureCreate_mipmaps info"; simp add: lovrTextureCreate_def)+
  have "accounted (h @ [?t]) (held(length h := 1)) None"
    using create.IH by (rule accounted_create) (simp_all add: source_of_def create.hyps(2))
  then show ?case by (simp add: res fun_upd_def)
next
  case (create_view h held view p h')
  note run = create_view.hyps(2)
  obtain s where s: "v_source view = Some s"
    using run by (cases "v_source view") (simp_all add: lovrTextureCreateView_def)
  have ok: "s < length h" "0 < t_ref (h ! s)"
    using run s
    by (cases "s < length h \<and> 0 < t_ref (h ! s)"; simp add: lovrTextureCreateView_def)+
  let ?t = "\<lparr>t_ref = 1, t_gpu = True, t_info = (t_info (h ! s))\<lparr>ti_view := view\<rparr>\<rparr>"
  have res: "p = length h" "h' = lovrRetain (h @ [?t]) s"
    using run s ok by (simp_all add: lovrTextureCreateView_def)
  have "accounted (lovrRetain (h @ [?t]) s) (held(length h := 1)) None"
    using create_view.IH ok by (rule accounted_create_view) (simp_all add: source_of_def s)
  then show ?case by (simp add: res fun_upd_def)
next
  case (retain h held p)
  then show ?case using accounted_retain [of h held p] by (simp add: fun_upd_def)
next
  case (release h held p h')
  then show ?case using accounted_release_step [of h held p] by (auto simp: fun_upd_def)
qed

subsection \<open>Views keep their source alive\<close>

lemma create_view_result:
  assumes run: "lovrTextureCreateView view gpu_ok h = (Inr p, h')"
    and src: "v_source view = Some s"
  shows "s < length h" and "0 < t_ref (h ! s)" and "p = length h"
    and "h' = h[s := (h ! s)\<lparr>t_ref := t_ref (h ! s) + 1\<rparr>]
                @ [\<lparr>t_ref = 1, t_gpu = True, t_info = (t_info (h ! s))\<lparr>ti_view := view\<rparr>\<rparr>]"
proof -
  show ok: "s < length h" "0 < t_ref (h ! s)"
    using run src
    by (cases "s < length h \<and> 0 < t_ref (h ! s)"; simp add: lovrTextureCreateView_def)+
  have gpu: gpu_ok
    using run src ok by (cases gpu_ok) (simp_all add: lovrTextureCreateView_def)
  show "p = length h"
    using run src ok gpu by (simp add: lovrTextureCreateView_def)
  show "h' = h[s := (h ! s)\<lparr>t_ref := t_ref (h ! s) + 1\<rparr>]
                @ [\<lparr>t_ref = 1, t_gpu = True, t_info = (t_info (h ! s))\<lparr>ti_view := view\<rparr>\<rparr>]"
    using run src ok gpu
    by (simp add: lovrTextureCreateView_def lovrRetain_def list_update_append nth_append)
qed

lemma release_view_of_shared_source:
  assumes p: "p < length h" and last: "t_ref (h ! p) = 1" and src: "source_of (h ! p) = Some s"
    and s: "s < length h" "s \<noteq> p" and shared: "1 < t_ref (h ! s)"
  shows "lovrRelease h p
         = Some (h[p := (h ! p)\<lparr>t_ref := 0, t_gpu := False\<rparr>,
                   s := (h ! s)\<lparr>t_ref := t_ref (h ! s) - 1\<rparr>])"
proof -
  define g where "g = h[p := (h ! p)\<lparr>t_ref := 0, t_gpu := False\<rparr>]"
  have gs: "g ! s = h ! s" "s < length g"
    using s by (simp_all add: g_def)
  have "lovrRelease h p = lovrRelease g s"
    unfolding g_def using p last src by (rule release_last_view)
  also have "\<dots> = Some (g[s := (g ! s)\<lparr>t_ref := t_ref (g ! s) - 1\<rparr>])"
    using gs shared by (intro release_shared) simp_all
  finally show ?thesis by (simp add: gs) (simp add: g_def)
qed

lemma live_view_counts:
  assumes acc: "accounted h held None" and p: "p < length h" and live: "t_gpu (h ! p)"
    and src: "source_of (h ! p) = Some s"
  shows "s < length h" and "held s + 1 \<le> t_ref (h ! s)"
proof -
  have "s < p" using accountedD(3) [OF acc p src] .
  then show s: "s < length h" using p by simp
  have "views_onto s (h ! p) = 1"
    using live src by (simp add: views_onto_def)
  then have "1 \<le> views h s"
    using views_ge [OF p, of s] by simp
  then show "held s + 1 \<le> t_ref (h ! s)"
    using accountedD(1) [OF acc s] by simp
qed

text \<open>
  C9. Creating a view appends the view, holding one reference and its own GPU object,
  and increments the count of the source by one, leaving the source's GPU object as it
  is. Releasing the last reference of a view whose source has another reference
  destroys the view's GPU object and decrements the source's count by exactly one,
  leaving the source's GPU object in place. In every state that clients reach who
  release only what they hold: the source of a live view is a live texture with a
  positive count; a release by a holder always returns, into such a state again; and
  the holder of a source with a live view onto it who releases the source leaves it
  with a positive count and its GPU object.
\<close>

theorem view_retains_source:
  "(lovrTextureCreateView view gpu_ok h = (Inr p, h') \<and> v_source view = Some s \<longrightarrow>
       p = length h \<and> length h' = Suc (length h)
       \<and> t_ref (h' ! s) = t_ref (h ! s) + 1 \<and> t_gpu (h' ! s) = t_gpu (h ! s)
       \<and> source_of (h' ! p) = Some s \<and> t_ref (h' ! p) = 1 \<and> t_gpu (h' ! p))
   \<and> (p < length h \<and> t_ref (h ! p) = 1 \<and> source_of (h ! p) = Some s
        \<and> s < length h \<and> s \<noteq> p \<and> 1 < t_ref (h ! s) \<longrightarrow>
       lovrRelease h p
         = Some (h[p := (h ! p)\<lparr>t_ref := 0, t_gpu := False\<rparr>,
                   s := (h ! s)\<lparr>t_ref := t_ref (h ! s) - 1\<rparr>]))
   \<and> (reachable h held \<and> p < length h \<and> t_gpu (h ! p) \<and> source_of (h ! p) = Some s \<longrightarrow>
       s < length h \<and> t_gpu (h ! s) \<and> 0 < t_ref (h ! s))
   \<and> (reachable h held \<and> 0 < held p \<longrightarrow>
       (\<exists>g. lovrRelease h p = Some g \<and> reachable g (held(p := held p - 1))))
   \<and> (reachable h held \<and> p < length h \<and> t_gpu (h ! p) \<and> source_of (h ! p) = Some s
        \<and> 0 < held s \<longrightarrow>
       lovrRelease h s = Some (h[s := (h ! s)\<lparr>t_ref := t_ref (h ! s) - 1\<rparr>])
       \<and> 0 < t_ref (h ! s) - 1)"
proof (intro conjI impI)
  assume a: "lovrTextureCreateView view gpu_ok h = (Inr p, h') \<and> v_source view = Some s"
  note r = create_view_result [OF a [THEN conjunct1] a [THEN conjunct2]]
  show "p = length h" by (rule r(3))
  show "length h' = Suc (length h)" by (simp add: r(4))
  show "t_ref (h' ! s) = t_ref (h ! s) + 1"
    using r(1) by (simp add: r(4) nth_append)
  show "t_gpu (h' ! s) = t_gpu (h ! s)"
    using r(1) by (simp add: r(4) nth_append)
  show "source_of (h' ! p) = Some s"
    using a by (simp add: r(3) r(4) nth_append source_of_def)
  show "t_ref (h' ! p) = 1" by (simp add: r(3) r(4) nth_append)
  show "t_gpu (h' ! p)" by (simp add: r(3) r(4) nth_append)
next
  assume "p < length h \<and> t_ref (h ! p) = 1 \<and> source_of (h ! p) = Some s
        \<and> s < length h \<and> s \<noteq> p \<and> 1 < t_ref (h ! s)"
  then show "lovrRelease h p
         = Some (h[p := (h ! p)\<lparr>t_ref := 0, t_gpu := False\<rparr>,
                   s := (h ! s)\<lparr>t_ref := t_ref (h ! s) - 1\<rparr>])"
    by (intro release_view_of_shared_source) simp_all
next
  assume a: "reachable h held \<and> p < length h \<and> t_gpu (h ! p) \<and> source_of (h ! p) = Some s"
  then have acc: "accounted h held None" by (simp add: reachable_accounted)
  have s: "s < length h" and ref: "held s + 1 \<le> t_ref (h ! s)"
    using live_view_counts [OF acc] a by auto
  show "s < length h" by (rule s)
  show "0 < t_ref (h ! s)" using ref by simp
  then show "t_gpu (h ! s)" using accountedD(2) [OF acc s] by simp
next
  assume a: "reachable h held \<and> 0 < held p"
  then have "accounted h held None" by (simp add: reachable_accounted)
  then obtain g where "lovrRelease h p = Some g"
    using accounted_release_step a by blast
  then show "\<exists>g. lovrRelease h p = Some g \<and> reachable g (held(p := held p - 1))"
    using a reachable.release by blast
next
  assume a: "reachable h held \<and> p < length h \<and> t_gpu (h ! p) \<and> source_of (h ! p) = Some s
        \<and> 0 < held s"
  then have acc: "accounted h held None" by (simp add: reachable_accounted)
  have s: "s < length h" and ref: "held s + 1 \<le> t_ref (h ! s)"
    using live_view_counts [OF acc] a by auto
  then have shared: "1 < t_ref (h ! s)" using a by simp
  show "lovrRelease h s = Some (h[s := (h ! s)\<lparr>t_ref := t_ref (h ! s) - 1\<rparr>])"
    using s shared by (rule release_shared)
  show "0 < t_ref (h ! s) - 1" using shared by simp
qed

lemma example_create:
  "lovrTextureCreate (example_info TEXTURE_2D 4 4 1) True []
     = (Inr 0, [example_texture], (example_info TEXTURE_2D 4 4 1)\<lparr>ti_mipmaps := 3\<rparr>)"
  by (simp add: lovrTextureCreate_def lovrTextureCreate_mipmaps_def example_info_def
      example_texture_def log2_plus_1_def floorlog_2_4)

lemma example_create_view:
  "lovrTextureCreateView (view_of 0) True [example_texture]
     = (Inr 1, [example_texture\<lparr>t_ref := 2\<rparr>, example_view])"
  by (simp add: lovrTextureCreateView_def view_of_def example_texture_def example_view_def
      lovrRetain_def example_info_def)

lemma example_reachable:
  "reachable [example_texture\<lparr>t_ref := 2\<rparr>, example_view] ((\<lambda>_. 0)(0 := 1, 1 := 1))"
proof -
  have "v_source (ti_view (example_info TEXTURE_2D 4 4 1)) = None"
    by (simp add: example_info_def no_view_def)
  from reachable.create [OF reachable.start this example_create]
  have "reachable [example_texture] ((\<lambda>_. 0)(0 := 1))" .
  from reachable.create_view [OF this example_create_view]
  show ?thesis .
qed

theorem view_retains_source_witness:
  "lovrTextureCreateView (view_of 0) True [example_texture]
     = (Inr 1, [example_texture\<lparr>t_ref := 2\<rparr>, example_view])
   \<and> t_ref ([example_texture\<lparr>t_ref := 2\<rparr>, example_view] ! 0) = t_ref ([example_texture] ! 0) + 1
   \<and> source_of ([example_texture\<lparr>t_ref := 2\<rparr>, example_view] ! 1) = Some 0
   \<and> lovrRelease [example_texture\<lparr>t_ref := 2\<rparr>, example_view] 1
       = Some [example_texture, example_view\<lparr>t_ref := 0, t_gpu := False\<rparr>]
   \<and> reachable [example_texture\<lparr>t_ref := 2\<rparr>, example_view] ((\<lambda>_. 0)(0 := 1, 1 := 1))
   \<and> t_gpu ([example_texture\<lparr>t_ref := 2\<rparr>, example_view] ! 0)
   \<and> lovrRelease [example_texture\<lparr>t_ref := 2\<rparr>, example_view] 0
       = Some [example_texture, example_view]"
proof -
  let ?h = "[example_texture\<lparr>t_ref := 2\<rparr>, example_view]"
  let ?held = "(\<lambda>_. 0::nat)(0 := 1, 1 := 1)"
  have src: "v_source (view_of 0) = Some 0"
    by (simp add: view_of_def)
  have facts: "(1::nat) < length ?h" "t_ref (?h ! 1) = 1" "source_of (?h ! 1) = Some 0"
      "(0::nat) < length ?h" "(0::nat) \<noteq> 1" "1 < t_ref (?h ! 0)" "t_gpu (?h ! 1)"
      "0 < ?held 0" "0 < ?held 1"
    by (simp_all add: example_view_def source_of_def view_of_def example_texture_def)
  have upd: "?h[1 := (?h ! 1)\<lparr>t_ref := 0, t_gpu := False\<rparr>,
                0 := (?h ! 0)\<lparr>t_ref := t_ref (?h ! 0) - 1\<rparr>]
             = [example_texture, example_view\<lparr>t_ref := 0, t_gpu := False\<rparr>]"
      "?h[0 := (?h ! 0)\<lparr>t_ref := t_ref (?h ! 0) - 1\<rparr>] = [example_texture, example_view]"
    by (simp_all add: example_texture_def)
  note A = view_retains_source [of "view_of 0" True "[example_texture]" 1 ?h 0 ?held,
      THEN conjunct1, rule_format, OF conjI [OF example_create_view src]]
  note rest = view_retains_source [of "view_of 0" True ?h 1 ?h 0 ?held, THEN conjunct2]
  have B: "lovrRelease ?h 1 = Some [example_texture, example_view\<lparr>t_ref := 0, t_gpu := False\<rparr>]"
    using rest [THEN conjunct1] facts upd(1) by simp
  have C: "t_gpu (?h ! 0)"
    using rest [THEN conjunct2, THEN conjunct1] example_reachable facts by simp
  have E: "lovrRelease ?h 0 = Some [example_texture, example_view]"
    using rest [THEN conjunct2, THEN conjunct2, THEN conjunct2] example_reachable facts upd(2)
    by simp
  show ?thesis
    using A B C E example_reachable example_create_view facts(3) by simp
qed

end
